theory Spec2Isabelle
  imports Main "HOL-Library.Word" "HOL-Library.AList" "HOL-Library.Sublist"
begin

section \<open>Protocol data\<close>

text \<open>
  The gateway (\<^verbatim>\<open>src/gateway/server.cpp\<close>) and the watchdog's connection to it
  (\<^verbatim>\<open>src/watchdog/gateway_connection.cpp\<close>) exchange fixed-size messages about
  function calls. The protocol header is not among the sources; the records below hold
  the members that the two files read, under the names they read them by.
\<close>

type_synonym bytes = string

text \<open>
  \<^verbatim>\<open>protocol::FuncCall\<close>. The code reads \<^verbatim>\<open>func_id\<close>, \<^verbatim>\<open>client_id\<close> and
  \<^verbatim>\<open>full_call_id\<close>; the packing of the components into the 64-bit
  \<^verbatim>\<open>full_call_id\<close> is declared in the absent header, so the record keeps
  \<^verbatim>\<open>full_call_id\<close> as a member of its own.
\<close>

record FuncCall =
  func_id :: "16 word"
  method_id :: "16 word"
  client_id :: "16 word"
  call_id :: "32 word"
  full_call_id :: "64 word"

datatype MessageType =
    LAUNCHER_HANDSHAKE
  | FUNC_WORKER_HANDSHAKE
  | HANDSHAKE_RESPONSE
  | INVOKE_FUNC
  | FUNC_CALL_COMPLETE
  | FUNC_CALL_FAILED

text \<open>
  \<^verbatim>\<open>protocol::Message\<close>: \<^verbatim>\<open>payload_size\<close> is a signed 32-bit member (negative: the
  payload is in shared memory); \<^verbatim>\<open>inline_data\<close> is what
  \<^verbatim>\<open>GetInlineDataFromMessage\<close> returns and \<^verbatim>\<open>msg_func_call\<close> what
  \<^verbatim>\<open>GetFuncCallFromMessage\<close> returns. The member is read as an integer, and the
  sizes that the handlers hand to a dispatcher are its absolute value; for the one value
  \<^verbatim>\<open>INT32_MIN\<close>, whose negation overflows in the code, the size so logged is not
  the one the code passes.
\<close>

record Message =
  message_type :: MessageType
  msg_func_call :: FuncCall
  parent_call_id :: "64 word"
  payload_size :: int
  inline_data :: bytes
  processing_time :: int
  dispatch_delay :: int

definition IsInvokeFuncMessage :: "Message \<Rightarrow> bool" where
  "IsInvokeFuncMessage m = (message_type m = INVOKE_FUNC)"

definition IsFuncCallCompleteMessage :: "Message \<Rightarrow> bool" where
  "IsFuncCallCompleteMessage m = (message_type m = FUNC_CALL_COMPLETE)"

definition IsFuncCallFailedMessage :: "Message \<Rightarrow> bool" where
  "IsFuncCallFailedMessage m = (message_type m = FUNC_CALL_FAILED)"

section \<open>The watchdog's connection to the gateway\<close>

text \<open>
  \<^verbatim>\<open>watchdog::GatewayConnection\<close>. The connection is driven by libuv callbacks; each
  member function of the file is a function on the record below. Requests made to
  libuv and calls made on the watchdog are appended to \<^verbatim>\<open>effects\<close> in program order
  (no function reads that member). A failing \<^verbatim>\<open>DCHECK\<close> is the result \<open>None\<close>.
\<close>

datatype State = kCreated | kHandshake | kRunning | kClosing | kClosed

datatype conn_effect =
    uv_pipe_connect string
  | uv_close
  | uv_read_stop
  | uv_read_start_ReadHandshakeResponse
  | uv_read_start_ReadMessage
  | uv_write_handshake bytes
  | uv_write_message Message
  | Watchdog_OnRecvHandshakeResponse bytes
  | Watchdog_ReadMessages bytes
  | Watchdog_OnGatewayConnectionClose

record GatewayConnection =
  state :: State
  handshake_message :: bytes
  message_buffer :: bytes
  effects :: "conn_effect list"

text \<open>
  Sizes fixed by declarations outside the file: \<^verbatim>\<open>sizeof(HandshakeResponse)\<close>,
  \<^verbatim>\<open>sizeof(Message)\<close> and \<^verbatim>\<open>kBufferSize\<close>.
\<close>

record sizes =
  sizeof_HandshakeResponse :: nat
  sizeof_Message :: nat
  kBufferSize :: nat

definition GatewayConnection_new :: GatewayConnection where
  "GatewayConnection_new =
     \<lparr>state = kCreated, handshake_message = [], message_buffer = [], effects = []\<rparr>"

text \<open>The destructor: its \<^verbatim>\<open>DCHECK\<close> passes or aborts.\<close>

definition GatewayConnection_destroy :: "GatewayConnection \<Rightarrow> unit option" where
  "GatewayConnection_destroy c =
     (if state c = kCreated \<or> state c = kClosed then Some () else None)"

definition Start :: "string \<Rightarrow> bytes \<Rightarrow> GatewayConnection \<Rightarrow> GatewayConnection option" where
  "Start ipc_path hm c =
     (if state c = kCreated
      then Some (c\<lparr>handshake_message := hm,
                   effects := effects c @ [uv_pipe_connect ipc_path],
                   state := kHandshake\<rparr>)
      else None)"

definition ScheduleClose :: "GatewayConnection \<Rightarrow> GatewayConnection" where
  "ScheduleClose c =
     (if state c = kHandshake \<or> state c = kRunning
      then c\<lparr>effects := effects c @ [uv_close], state := kClosing\<rparr>
      else c)"

text \<open>
  \<^verbatim>\<open>RecvHandshakeResponse\<close>: \<open>accepted\<close> is what
  \<^verbatim>\<open>watchdog_->OnRecvHandshakeResponse\<close> returns.
\<close>

definition RecvHandshakeResponse :: "bool \<Rightarrow> GatewayConnection \<Rightarrow> GatewayConnection" where
  "RecvHandshakeResponse accepted c =
     (let c1 = c\<lparr>effects := effects c
                    @ [uv_read_stop, Watchdog_OnRecvHandshakeResponse (message_buffer c)]\<rparr>
      in if accepted
         then c1\<lparr>message_buffer := [],
                 effects := effects c1 @ [uv_read_start_ReadMessage],
                 state := kRunning\<rparr>
         else c1)"

definition WriteMessage :: "sizes \<Rightarrow> Message \<Rightarrow> GatewayConnection \<Rightarrow> GatewayConnection option" where
  "WriteMessage sz message c =
     (if sizeof_Message sz \<le> kBufferSize sz
      then Some (c\<lparr>effects := effects c @ [uv_write_message message]\<rparr>)
      else None)"

definition ConnectCallback :: "int \<Rightarrow> GatewayConnection \<Rightarrow> GatewayConnection" where
  "ConnectCallback status c =
     (if status \<noteq> 0 then ScheduleClose c
      else c\<lparr>effects := effects c @ [uv_write_handshake (handshake_message c)]\<rparr>)"

text \<open>
  The read callbacks get \<open>nread\<close> and the buffer libuv filled; \<open>nread\<close> bytes of it
  are data.
\<close>

definition ReadHandshakeResponseCallback ::
  "sizes \<Rightarrow> bool \<Rightarrow> int \<Rightarrow> bytes \<Rightarrow> GatewayConnection \<Rightarrow> GatewayConnection option" where
  "ReadHandshakeResponseCallback sz accepted nread buf c =
     (if nread < 0 then Some (ScheduleClose c)
      else if nread = 0 then Some c
      else let c1 = c\<lparr>message_buffer := message_buffer c @ take (nat nread) buf\<rparr>
           in if sizeof_HandshakeResponse sz < length (message_buffer c1) then None
              else if length (message_buffer c1) = sizeof_HandshakeResponse sz
              then Some (RecvHandshakeResponse accepted c1)
              else Some c1)"

definition WriteHandshakeCallback :: "int \<Rightarrow> GatewayConnection \<Rightarrow> GatewayConnection" where
  "WriteHandshakeCallback status c =
     (if status \<noteq> 0 then ScheduleClose c
      else c\<lparr>effects := effects c @ [uv_read_start_ReadHandshakeResponse]\<rparr>)"

text \<open>
  Modelled from the spec: \<^verbatim>\<open>utils::ReadMessages\<close>, which is not among the sources.
  The callback hands it the buffer and the data, and it hands whole messages to the
  watchdog; the wire unit is the fixed-size Message, so the bytes of whole messages
  leave the buffer and the rest stays.
\<close>

definition ReadMessages :: "sizes \<Rightarrow> bytes \<Rightarrow> GatewayConnection \<Rightarrow> GatewayConnection" where
  "ReadMessages sz data c =
     (let all = message_buffer c @ data;
          whole = (length all div sizeof_Message sz) * sizeof_Message sz
      in c\<lparr>message_buffer := drop whole all,
            effects := effects c @ [Watchdog_ReadMessages (take whole all)]\<rparr>)"

definition ReadMessageCallback ::
  "sizes \<Rightarrow> int \<Rightarrow> bytes \<Rightarrow> GatewayConnection \<Rightarrow> GatewayConnection" where
  "ReadMessageCallback sz nread buf c =
     (if nread < 0 then ScheduleClose c
      else if nread = 0 then c
      else ReadMessages sz (take (nat nread) buf) c)"

definition WriteMessageCallback :: "int \<Rightarrow> GatewayConnection \<Rightarrow> GatewayConnection" where
  "WriteMessageCallback status c = (if status \<noteq> 0 then ScheduleClose c else c)"

definition CloseCallback :: "GatewayConnection \<Rightarrow> GatewayConnection" where
  "CloseCallback c =
     c\<lparr>state := kClosed, effects := effects c @ [Watchdog_OnGatewayConnectionClose]\<rparr>"

text \<open>
  Every member function of the file that runs on a live connection, with its
  arguments, so that a statement can range over all of them.
\<close>

datatype conn_op =
    Op_Start string bytes
  | Op_ScheduleClose
  | Op_RecvHandshakeResponse bool
  | Op_WriteMessage Message
  | Op_ConnectCallback int
  | Op_ReadHandshakeResponseCallback bool int bytes
  | Op_WriteHandshakeCallback int
  | Op_ReadMessageCallback int bytes
  | Op_WriteMessageCallback int
  | Op_CloseCallback

fun run_op :: "sizes \<Rightarrow> conn_op \<Rightarrow> GatewayConnection \<Rightarrow> GatewayConnection option" where
  "run_op sz (Op_Start ipc_path hm) c = Start ipc_path hm c"
| "run_op sz Op_ScheduleClose c = Some (ScheduleClose c)"
| "run_op sz (Op_RecvHandshakeResponse accepted) c = Some (RecvHandshakeResponse accepted c)"
| "run_op sz (Op_WriteMessage m) c = WriteMessage sz m c"
| "run_op sz (Op_ConnectCallback status) c = Some (ConnectCallback status c)"
| "run_op sz (Op_ReadHandshakeResponseCallback accepted nread buf) c =
     ReadHandshakeResponseCallback sz accepted nread buf c"
| "run_op sz (Op_WriteHandshakeCallback status) c = Some (WriteHandshakeCallback status c)"
| "run_op sz (Op_ReadMessageCallback nread buf) c = Some (ReadMessageCallback sz nread buf c)"
| "run_op sz (Op_WriteMessageCallback status) c = Some (WriteMessageCallback status c)"
| "run_op sz Op_CloseCallback c = Some (CloseCallback c)"

text \<open>The order of the enumerators of \<^verbatim>\<open>State\<close>, the direction of the close path.\<close>

fun state_rank :: "State \<Rightarrow> nat" where
  "state_rank kCreated = 0"
| "state_rank kHandshake = 1"
| "state_rank kRunning = 2"
| "state_rank kClosing = 3"
| "state_rank kClosed = 4"

section \<open>The gateway: external call contexts\<close>

text \<open>
  The HTTP and gRPC request contexts are declared outside the file. Each is the request
  it carries and the response built so far; \<^verbatim>\<open>http_finish_calls\<close> and
  \<^verbatim>\<open>grpc_finish_calls\<close> count the calls of \<^verbatim>\<open>Finish()\<close> on the context. A status
  is \<open>None\<close> until the file sets one.
\<close>

datatype GrpcStatus = OK | NOT_FOUND | UNKNOWN | UNIMPLEMENTED

record HttpAsyncRequestContext =
  http_path :: string
  http_body :: bytes
  http_response_body :: bytes
  http_status :: "nat option"
  http_finish_calls :: nat

record GrpcCallContext =
  service_name :: string
  method_name :: string
  request_body :: bytes
  grpc_response_body :: bytes
  grpc_status :: "GrpcStatus option"
  grpc_finish_calls :: nat

text \<open>
  Shared-memory regions (\<^verbatim>\<open>ipc::ShmRegion\<close>, outside the file) are named after the
  call: \<^verbatim>\<open>GetFuncCallInputShmName\<close> and \<^verbatim>\<open>GetFuncCallOutputShmName\<close>.
\<close>

datatype shm_name = FuncCallInput "64 word" | FuncCallOutput "64 word"

record ShmRegion =
  region_name :: shm_name
  region_contents :: bytes
  remove_on_destruction :: bool

text \<open>
  What the operating system and the dispatchers answer while one handler runs:
  whether \<^verbatim>\<open>ipc::ShmCreate\<close> returns a region, what \<^verbatim>\<open>ipc::ShmOpen\<close> finds, and what
  \<^verbatim>\<open>Dispatcher::OnNewFuncCall\<close> returns.
\<close>

record world =
  ShmCreate :: "shm_name \<Rightarrow> nat \<Rightarrow> bool"
  ShmOpen :: "shm_name \<Rightarrow> bytes option"
  Dispatcher_OnNewFuncCall :: "FuncCall \<Rightarrow> bool"

text \<open>
  \<^verbatim>\<open>Server::ExternalFuncCallContext\<close>. Each of the two constructors sets exactly one
  of \<^verbatim>\<open>http_context_\<close> and \<^verbatim>\<open>grpc_context_\<close>, from a pointer its caller has
  already dereferenced; \<open>sink\<close> is that context.
\<close>

datatype response_sink = Http HttpAsyncRequestContext | Grpc GrpcCallContext

record ExternalFuncCallContext =
  call :: FuncCall
  sink :: response_sink
  input_region :: "ShmRegion option"
  output_region :: "ShmRegion option"

definition ExternalFuncCallContext_http ::
  "FuncCall \<Rightarrow> HttpAsyncRequestContext \<Rightarrow> ExternalFuncCallContext" where
  "ExternalFuncCallContext_http fc http_context =
     \<lparr>call = fc, sink = Http http_context, input_region = None, output_region = None\<rparr>"

definition ExternalFuncCallContext_grpc ::
  "FuncCall \<Rightarrow> GrpcCallContext \<Rightarrow> ExternalFuncCallContext" where
  "ExternalFuncCallContext_grpc fc grpc_context =
     \<lparr>call = fc, sink = Grpc grpc_context, input_region = None, output_region = None\<rparr>"

definition GetInput :: "ExternalFuncCallContext \<Rightarrow> bytes" where
  "GetInput c = (case sink c of Http h \<Rightarrow> http_body h | Grpc g \<Rightarrow> request_body g)"

definition AppendToResponseBody :: "bytes \<Rightarrow> response_sink \<Rightarrow> response_sink" where
  "AppendToResponseBody d k =
     (case k of
        Http h \<Rightarrow> Http (h\<lparr>http_response_body := http_response_body h @ d\<rparr>)
      | Grpc g \<Rightarrow> Grpc (g\<lparr>grpc_response_body := grpc_response_body g @ d\<rparr>))"

definition Finish :: "ExternalFuncCallContext \<Rightarrow> ExternalFuncCallContext" where
  "Finish c =
     c\<lparr>sink := (case sink c of
                  Http h \<Rightarrow> Http (h\<lparr>http_finish_calls := Suc (http_finish_calls h)\<rparr>)
                | Grpc g \<Rightarrow> Grpc (g\<lparr>grpc_finish_calls := Suc (grpc_finish_calls g)\<rparr>))\<rparr>"

definition FinishWithError :: "ExternalFuncCallContext \<Rightarrow> ExternalFuncCallContext" where
  "FinishWithError c =
     Finish (c\<lparr>sink := (case sink c of
                  Http h \<Rightarrow> Http (h\<lparr>http_response_body :=
                                        http_response_body h @ ''Function call failed'' @ [CHR 0x0A],
                                     http_status := Some 500\<rparr>)
                | Grpc g \<Rightarrow> Grpc (g\<lparr>grpc_status := Some UNKNOWN\<rparr>))\<rparr>)"

text \<open>\<^verbatim>\<open>absl::StrFormat("%d", n)\<close> for an unsigned 16-bit \<open>n\<close>: its decimal digits.\<close>

fun decimal :: "nat \<Rightarrow> string" where
  "decimal n =
     (if n < 10 then [char_of (48 + n)] else decimal (n div 10) @ [char_of (48 + n mod 10)])"

declare decimal.simps [simp del]

definition FinishWithDispatchFailure :: "ExternalFuncCallContext \<Rightarrow> ExternalFuncCallContext" where
  "FinishWithDispatchFailure c =
     Finish (c\<lparr>sink := (case sink c of
                  Http h \<Rightarrow> Http (h\<lparr>http_response_body :=
                                        http_response_body h @ ''Dispatch failed for func_id ''
                                          @ decimal (unat (func_id (call c))) @ [CHR 0x0A],
                                     http_status := Some 404\<rparr>)
                | Grpc g \<Rightarrow> Grpc (g\<lparr>grpc_status := Some UNIMPLEMENTED\<rparr>))\<rparr>)"

definition FinishWithOutput :: "bytes \<Rightarrow> ExternalFuncCallContext \<Rightarrow> ExternalFuncCallContext" where
  "FinishWithOutput output c =
     Finish (if 0 < length output then c\<lparr>sink := AppendToResponseBody output (sink c)\<rparr> else c)"

definition FinishWithShmOutput :: "world \<Rightarrow> ExternalFuncCallContext \<Rightarrow> ExternalFuncCallContext" where
  "FinishWithShmOutput w c =
     (case ShmOpen w (FuncCallOutput (full_call_id (call c))) of
        None \<Rightarrow> FinishWithError c
      | Some d \<Rightarrow>
          let c1 = c\<lparr>output_region :=
                       Some \<lparr>region_name = FuncCallOutput (full_call_id (call c)),
                             region_contents = d, remove_on_destruction = True\<rparr>\<rparr>
          in Finish (if 0 < length d then c1\<lparr>sink := AppendToResponseBody d (sink c1)\<rparr>
                     else c1))"

definition CreateShmInput :: "world \<Rightarrow> ExternalFuncCallContext \<Rightarrow> ExternalFuncCallContext \<times> bool" where
  "CreateShmInput w c =
     (let body = GetInput c
      in if ShmCreate w (FuncCallInput (full_call_id (call c))) (length body)
         then (c\<lparr>input_region :=
                    Some \<lparr>region_name = FuncCallInput (full_call_id (call c)),
                          region_contents = body, remove_on_destruction = True\<rparr>\<rparr>, True)
         else (FinishWithError c, False))"

text \<open>The finish count of a context, whichever kind of request it answers.\<close>

definition finish_calls :: "ExternalFuncCallContext \<Rightarrow> nat" where
  "finish_calls c =
     (case sink c of Http h \<Rightarrow> http_finish_calls h | Grpc g \<Rightarrow> grpc_finish_calls g)"

section \<open>The gateway: the server's tables\<close>

text \<open>
  \<^verbatim>\<open>FuncConfig\<close> is outside the file; the server uses its two lookups. An entry's
  \<^verbatim>\<open>func_id\<close> is wider than 16 bits (the code narrows it) and
  \<^verbatim>\<open>grpc_method_ids\<close> maps method names to method ids.
\<close>

record FuncConfigEntry =
  entry_func_id :: int
  grpc_method_ids :: "(string \<times> int) list"

record FuncConfig =
  find_by_func_name :: "string \<Rightarrow> FuncConfigEntry option"
  find_by_func_id :: "16 word \<Rightarrow> FuncConfigEntry option"

text \<open>
  What is fixed before the first request: the constant
  \<^verbatim>\<open>MESSAGE_INLINE_DATA_SIZE\<close>, the loaded function configuration, and the two
  constructors of \<^verbatim>\<open>FuncCall\<close> of the protocol header
  (\<^verbatim>\<open>NewFuncCall(func_id, client_id, call_id)\<close> and
  \<^verbatim>\<open>NewFuncCallWithMethod(func_id, method_id, client_id, call_id)\<close>).
\<close>

record platform =
  MESSAGE_INLINE_DATA_SIZE :: nat
  func_config :: FuncConfig
  NewFuncCall :: "16 word \<Rightarrow> 16 word \<Rightarrow> 32 word \<Rightarrow> FuncCall"
  NewFuncCallWithMethod :: "16 word \<Rightarrow> 16 word \<Rightarrow> 16 word \<Rightarrow> 32 word \<Rightarrow> FuncCall"

text \<open>
  Calls the server makes on its collaborators (the dispatchers and \<^verbatim>\<open>worker_lib\<close>),
  and the pushes and pops of the pending queue. \<^verbatim>\<open>Dispatcher_NewFuncCall\<close> holds the
  arguments of \<^verbatim>\<open>OnNewFuncCall\<close>: the call, the parent's \<^verbatim>\<open>full_call_id\<close>
  (\<open>None\<close> for \<^verbatim>\<open>kInvalidFuncCall\<close>), the input size, the inline input and
  \<^verbatim>\<open>shm_input\<close>. The collaborators are outside the file: a call on one of them is
  an action that returns its answer and leaves the server's members alone. When a
  collaborator calls \<^verbatim>\<open>DiscardFuncCall\<close>, that is an event of its own.
\<close>

datatype action =
    PendingPush ExternalFuncCallContext
  | PendingPop ExternalFuncCallContext
  | Dispatcher_NewFuncCall FuncCall "64 word option" nat bytes bool
  | Dispatcher_FuncCallCompleted FuncCall int int nat
  | Dispatcher_FuncCallFailed FuncCall int
  | WorkerLib_FuncCallFinished FuncCall bool bytes int

text \<open>
  \<^verbatim>\<open>gateway::Server\<close>, the members the handlers below use, without the trailing
  underscore of the source. \<^verbatim>\<open>running_external_func_calls\<close> is the hash map from
  \<^verbatim>\<open>full_call_id\<close> to the owned context, as an association list with one entry per
  key (its \<^verbatim>\<open>size()\<close> is the length); \<^verbatim>\<open>pending_external_func_calls\<close> is the
  queue, front first; \<^verbatim>\<open>dispatchers\<close> holds the \<^verbatim>\<open>func_id\<close>s that have a
  Dispatcher. Two members are observations that no function reads: \<^verbatim>\<open>destroyed\<close>
  lists the contexts whose owning pointer was dropped, oldest first, each as it was
  then (the request context it shares with the connection carries the response);
  \<^verbatim>\<open>trace\<close> lists the actions in program order. Statistics, logging and
  timestamps are write-only in the file and are left out.
\<close>

record Server =
  max_running_external_requests :: nat
  next_call_id :: "32 word"
  inflight_external_requests :: int
  running_external_func_calls :: "(64 word \<times> ExternalFuncCallContext) list"
  pending_external_func_calls :: "ExternalFuncCallContext list"
  dispatchers :: "16 word list"
  discarded_func_calls :: "FuncCall list"
  http_connections :: "nat list"
  grpc_connections :: "nat list"
  message_connections :: "nat list"
  destroyed :: "ExternalFuncCallContext list"
  trace :: "action list"

definition Server_new :: "nat \<Rightarrow> Server" where
  "Server_new cap =
     \<lparr>max_running_external_requests = cap, next_call_id = 1, inflight_external_requests = 0,
      running_external_func_calls = [], pending_external_func_calls = [], dispatchers = [],
      discarded_func_calls = [], http_connections = [], grpc_connections = [],
      message_connections = [], destroyed = [], trace = []\<rparr>"

text \<open>
  The destructor of a context, run when its owning pointer is dropped: it decrements
  the in-flight counter.
\<close>

definition destroy :: "ExternalFuncCallContext \<Rightarrow> Server \<Rightarrow> Server" where
  "destroy c s =
     s\<lparr>destroyed := destroyed s @ [c],
       inflight_external_requests := inflight_external_requests s - 1\<rparr>"

text \<open>
  \<^verbatim>\<open>running_external_func_calls_[k] = std::move(c)\<close>: the entry of \<open>k\<close> is created
  or overwritten; an owning pointer that is overwritten drops its context.
\<close>

definition assign_running :: "64 word \<Rightarrow> ExternalFuncCallContext \<Rightarrow> Server \<Rightarrow> Server" where
  "assign_running k c s =
     (let s1 = s\<lparr>running_external_func_calls := AList.update k c (running_external_func_calls s)\<rparr>
      in case map_of (running_external_func_calls s) k of
           None \<Rightarrow> s1
         | Some old \<Rightarrow> destroy old s1)"

text \<open>\<^verbatim>\<open>running_external_func_calls_.erase(k)\<close>: the entry's context is dropped.\<close>

definition erase_running :: "64 word \<Rightarrow> Server \<Rightarrow> Server" where
  "erase_running k s =
     (case map_of (running_external_func_calls s) k of
        None \<Rightarrow> s
      | Some c \<Rightarrow>
          destroy c (s\<lparr>running_external_func_calls :=
                          AList.delete k (running_external_func_calls s)\<rparr>))"

text \<open>
  A raw pointer \<^verbatim>\<open>ExternalFuncCallContext*\<close> taken from an owning pointer that has
  just been moved into \<^verbatim>\<open>running_external_func_calls_\<close> is the key of that entry:
  the handlers use it only while the entry is there. Writing through the pointer
  updates the entry in place.
\<close>

definition store :: "64 word \<Rightarrow> ExternalFuncCallContext \<Rightarrow> Server \<Rightarrow> Server" where
  "store ptr c s =
     s\<lparr>running_external_func_calls := AList.update ptr c (running_external_func_calls s)\<rparr>"

definition log_action :: "action \<Rightarrow> Server \<Rightarrow> Server" where
  "log_action a s = s\<lparr>trace := trace s @ [a]\<rparr>"

text \<open>The second component tells whether the returned \<^verbatim>\<open>Dispatcher*\<close> is non-null.\<close>

definition GetOrCreateDispatcherLocked :: "platform \<Rightarrow> Server \<Rightarrow> 16 word \<Rightarrow> Server \<times> bool" where
  "GetOrCreateDispatcherLocked p s fid =
     (if fid \<in> set (dispatchers s) then (s, True)
      else if find_by_func_id (func_config p) fid \<noteq> None
      then (s\<lparr>dispatchers := dispatchers s @ [fid]\<rparr>, True)
      else (s, False))"

definition DiscardFuncCall :: "FuncCall \<Rightarrow> Server \<Rightarrow> Server" where
  "DiscardFuncCall fc s = s\<lparr>discarded_func_calls := discarded_func_calls s @ [fc]\<rparr>"

section \<open>The gateway: dispatch and admission\<close>

text \<open>
  \<^verbatim>\<open>Server::DispatchExternalFuncCall\<close>, on the context that \<open>ptr\<close> points to. (A
  pointer to no entry does not occur in the handlers; the model answers it with a
  failed dispatch that does nothing.)
\<close>

definition DispatchExternalFuncCall :: "platform \<Rightarrow> world \<Rightarrow> Server \<Rightarrow> 64 word \<Rightarrow> Server \<times> bool" where
  "DispatchExternalFuncCall p w s ptr =
     (case map_of (running_external_func_calls s) ptr of
        None \<Rightarrow> (s, False)
      | Some c \<Rightarrow>
          let fc = call c;
              input = GetInput c;
              (c1, created) = (if MESSAGE_INLINE_DATA_SIZE p < length input
                               then CreateShmInput w c else (c, True))
          in if \<not> created then (store ptr c1 s, False)
             else
               let (s1, dispatcher) = GetOrCreateDispatcherLocked p (store ptr c1 s) (func_id fc)
               in if \<not> dispatcher then (store ptr (FinishWithDispatchFailure c1) s1, False)
                  else
                    let s2 = log_action
                               (if length input \<le> MESSAGE_INLINE_DATA_SIZE p
                                then Dispatcher_NewFuncCall fc None (length input) input False
                                else Dispatcher_NewFuncCall fc None (length input) [] True) s1
                    in if Dispatcher_OnNewFuncCall w fc then (s2, True)
                       else (store ptr (FinishWithDispatchFailure c1) s2, False))"

text \<open>
  The critical section of \<^verbatim>\<open>Server::NewExternalFuncCall\<close> (the block that holds
  \<^verbatim>\<open>mu_\<close>): the new state and \<^verbatim>\<open>func_call_for_dispatch\<close> (\<open>None\<close> for
  \<^verbatim>\<open>nullptr\<close>).
\<close>

definition NewExternalFuncCall_locked ::
  "Server \<Rightarrow> ExternalFuncCallContext \<Rightarrow> Server \<times> 64 word option" where
  "NewExternalFuncCall_locked s c =
     (if max_running_external_requests s = 0
         \<or> length (running_external_func_calls s) < max_running_external_requests s
      then (assign_running (full_call_id (call c)) c s, Some (full_call_id (call c)))
      else (log_action (PendingPush c)
              (s\<lparr>pending_external_func_calls := pending_external_func_calls s @ [c]\<rparr>), None))"

text \<open>
  What every handler does, after its critical section, with a context it has marked
  for dispatch: dispatch it, and on failure take \<^verbatim>\<open>mu_\<close> again and erase it.
\<close>

definition dispatch_or_erase :: "platform \<Rightarrow> world \<Rightarrow> 64 word \<Rightarrow> Server \<Rightarrow> Server" where
  "dispatch_or_erase p w ptr s =
     (let (s1, success) = DispatchExternalFuncCall p w s ptr
      in if \<not> success then erase_running ptr s1 else s1)"

definition NewExternalFuncCall :: "platform \<Rightarrow> world \<Rightarrow> Server \<Rightarrow> ExternalFuncCallContext \<Rightarrow> Server" where
  "NewExternalFuncCall p w s c =
     (let (s1, func_call_for_dispatch) = NewExternalFuncCall_locked s c
      in case func_call_for_dispatch of
           None \<Rightarrow> s1
         | Some ptr \<Rightarrow> dispatch_or_erase p w ptr s1)"


text \<open>
  \<^verbatim>\<open>Server::OnNewGrpcCall\<close>. A call that is refused is finished at once and stays
  with the connection: it is the second component of the result.
\<close>

definition OnNewGrpcCall ::
  "platform \<Rightarrow> world \<Rightarrow> Server \<Rightarrow> GrpcCallContext \<Rightarrow> Server \<times> GrpcCallContext option" where
  "OnNewGrpcCall p w s call_context =
     (case find_by_func_name (func_config p) (''grpc:'' @ service_name call_context) of
        None \<Rightarrow>
          (s, Some (call_context\<lparr>grpc_status := Some NOT_FOUND,
                                 grpc_finish_calls := Suc (grpc_finish_calls call_context)\<rparr>))
      | Some func_entry \<Rightarrow>
          (case map_of (grpc_method_ids func_entry) (method_name call_context) of
             None \<Rightarrow>
               (s, Some (call_context\<lparr>grpc_status := Some NOT_FOUND,
                                      grpc_finish_calls := Suc (grpc_finish_calls call_context)\<rparr>))
           | Some mid \<Rightarrow>
               let fc = NewFuncCallWithMethod p (word_of_int (entry_func_id func_entry))
                          (word_of_int mid) 0 (next_call_id s);
                   s1 = s\<lparr>next_call_id := next_call_id s + 1,
                          inflight_external_requests := inflight_external_requests s + 1\<rparr>
               in (NewExternalFuncCall p w s1 (ExternalFuncCallContext_grpc fc call_context),
                   None)))"

section \<open>The gateway: the discarded-call drain\<close>

text \<open>
  The first loop of the critical section of
  \<^verbatim>\<open>Server::ProcessDiscardedFuncCallIfNecessary\<close>, over
  \<^verbatim>\<open>discarded_func_calls_\<close>: the running table, then
  \<^verbatim>\<open>discarded_external_func_calls\<close> and \<^verbatim>\<open>discarded_internal_func_calls\<close>.
  Moving a context out of the table and erasing its entry does not drop it.
\<close>

fun collect_discarded ::
  "FuncCall list \<Rightarrow> (64 word \<times> ExternalFuncCallContext) list \<Rightarrow> ExternalFuncCallContext list
     \<Rightarrow> FuncCall list
     \<Rightarrow> (64 word \<times> ExternalFuncCallContext) list \<times> ExternalFuncCallContext list \<times> FuncCall list" where
  "collect_discarded [] running ext internal = (running, ext, internal)"
| "collect_discarded (fc # fcs) running ext internal =
     (if client_id fc = 0
      then (case map_of running (full_call_id fc) of
              Some c \<Rightarrow> collect_discarded fcs (AList.delete (full_call_id fc) running)
                          (ext @ [c]) internal
            | None \<Rightarrow> collect_discarded fcs running ext internal)
      else collect_discarded fcs running ext (internal @ [fc]))"

text \<open>
  The second loop: while the queue is not empty and the cap permits, the front of the
  queue moves into the running table; \<open>acc\<close> is \<^verbatim>\<open>func_calls_for_dispatch\<close>.
\<close>

function promote_pending :: "Server \<Rightarrow> 64 word list \<Rightarrow> Server \<times> 64 word list" where
  "promote_pending s acc =
     (case pending_external_func_calls s of
        [] \<Rightarrow> (s, acc)
      | c # rest \<Rightarrow>
          if max_running_external_requests s = 0
             \<or> length (running_external_func_calls s) < max_running_external_requests s
          then promote_pending
                 (assign_running (full_call_id (call c)) c
                    (log_action (PendingPop c) (s\<lparr>pending_external_func_calls := rest\<rparr>)))
                 (acc @ [full_call_id (call c)])
          else (s, acc))"
  by pat_completeness auto
termination
  by (relation "measure (\<lambda>(s, acc). length (pending_external_func_calls s))")
     (auto simp: assign_running_def log_action_def destroy_def Let_def split: option.splits)

declare promote_pending.simps [simp del]

definition ProcessDiscarded_locked ::
  "Server \<Rightarrow> Server \<times> ExternalFuncCallContext list \<times> FuncCall list \<times> 64 word list" where
  "ProcessDiscarded_locked s =
     (let (running, ext, internal) =
            collect_discarded (discarded_func_calls s) (running_external_func_calls s) [] [];
          s1 = s\<lparr>running_external_func_calls := running, discarded_func_calls := []\<rparr>;
          (s2, func_calls_for_dispatch) = promote_pending s1 []
      in (s2, ext, internal, func_calls_for_dispatch))"

text \<open>
  Outside the critical section: each discarded external call is finished with a
  dispatch failure and dropped when the local vector is cleared; each discarded
  internal call is reported to \<^verbatim>\<open>worker_lib::FuncCallFinished\<close> with
  \<^verbatim>\<open>success = false\<close>, an empty output and processing time 0; each promoted call is
  dispatched.
\<close>

definition finish_discarded :: "ExternalFuncCallContext list \<Rightarrow> Server \<Rightarrow> Server" where
  "finish_discarded ext s = fold destroy (map FinishWithDispatchFailure ext) s"

definition fail_internal :: "FuncCall list \<Rightarrow> Server \<Rightarrow> Server" where
  "fail_internal internal s =
     fold (\<lambda>fc. log_action (WorkerLib_FuncCallFinished fc False [] 0)) internal s"

definition ProcessDiscardedFuncCallIfNecessary :: "platform \<Rightarrow> world \<Rightarrow> Server \<Rightarrow> Server" where
  "ProcessDiscardedFuncCallIfNecessary p w s =
     (let (s1, ext, internal, func_calls_for_dispatch) = ProcessDiscarded_locked s
      in fold (dispatch_or_erase p w) func_calls_for_dispatch
           (fail_internal internal (finish_discarded ext s1)))"

section \<open>The gateway: messages from workers\<close>

text \<open>
  The \<^verbatim>\<open>IsInvokeFuncMessage\<close> branch of \<^verbatim>\<open>Server::OnRecvMessage\<close>: a call from a
  worker goes to the dispatcher of its function, if there is one; the result of
  \<^verbatim>\<open>OnNewFuncCall\<close> is only logged.
\<close>

definition OnRecvMessage_invoke :: "platform \<Rightarrow> Server \<Rightarrow> Message \<Rightarrow> Server" where
  "OnRecvMessage_invoke p s m =
     (let fc = msg_func_call m;
          (s1, dispatcher) = GetOrCreateDispatcherLocked p s (func_id fc)
      in if dispatcher
         then log_action
                (if payload_size m < 0
                 then Dispatcher_NewFuncCall fc (Some (parent_call_id m))
                        (nat (- payload_size m)) [] True
                 else Dispatcher_NewFuncCall fc (Some (parent_call_id m))
                        (nat (payload_size m)) (inline_data m) False) s1
         else s1)"

text \<open>
  The critical section of the completion branch: the new state,
  \<^verbatim>\<open>func_call_context\<close> (the context moved out of the running table),
  \<^verbatim>\<open>func_call_for_dispatch\<close>, and whether there is a dispatcher.
\<close>

definition OnRecvMessage_locked ::
  "platform \<Rightarrow> Server \<Rightarrow> Message
     \<Rightarrow> Server \<times> ExternalFuncCallContext option \<times> 64 word option \<times> bool" where
  "OnRecvMessage_locked p s m =
     (let fc = msg_func_call m;
          (s1, func_call_context, func_call_for_dispatch) =
            (case (if client_id fc = 0
                   then map_of (running_external_func_calls s) (full_call_id fc) else None) of
               None \<Rightarrow> (s, None, None)
             | Some c \<Rightarrow>
                 let s' = s\<lparr>running_external_func_calls :=
                              AList.delete (full_call_id fc) (running_external_func_calls s)\<rparr>
                 in (case pending_external_func_calls s' of
                       [] \<Rightarrow> (s', Some c, None)
                     | n # rest \<Rightarrow>
                         if max_running_external_requests s' = 0
                            \<or> length (running_external_func_calls s')
                                < max_running_external_requests s'
                         then (assign_running (full_call_id (call n)) n
                                 (log_action (PendingPop n)
                                    (s'\<lparr>pending_external_func_calls := rest\<rparr>)),
                               Some c, Some (full_call_id (call n)))
                         else (s', Some c, None)));
          (s2, dispatcher) = GetOrCreateDispatcherLocked p s1 (func_id fc)
      in (s2, func_call_context, func_call_for_dispatch, dispatcher))"

text \<open>Lines 479 to 489: how the context of a completed or failed call is finished.\<close>

definition finish_external ::
  "world \<Rightarrow> Message \<Rightarrow> ExternalFuncCallContext \<Rightarrow> ExternalFuncCallContext" where
  "finish_external w m c =
     (if IsFuncCallCompleteMessage m
      then (if payload_size m < 0 then FinishWithShmOutput w c
            else FinishWithOutput (inline_data m) c)
      else FinishWithError c)"

text \<open>
  The completion branch. The owning pointer \<^verbatim>\<open>func_call_context\<close> is a local of
  the branch, so its context is dropped at the end of the branch, after the dispatch of
  the promoted call.
\<close>

definition OnRecvMessage_completion :: "platform \<Rightarrow> world \<Rightarrow> Server \<Rightarrow> Message \<Rightarrow> Server" where
  "OnRecvMessage_completion p w s m =
     (let fc = msg_func_call m;
          (s2, func_call_context, func_call_for_dispatch, dispatcher) = OnRecvMessage_locked p s m;
          s3 = (if dispatcher
                then log_action
                       (if IsFuncCallCompleteMessage m
                        then Dispatcher_FuncCallCompleted fc (processing_time m)
                               (dispatch_delay m) (nat \<bar>payload_size m\<bar>)
                        else Dispatcher_FuncCallFailed fc (dispatch_delay m)) s2
                else s2);
          finished = (if client_id fc = 0
                      then map_option (finish_external w m) func_call_context
                      else func_call_context);
          s4 = (case func_call_for_dispatch of
                  None \<Rightarrow> s3
                | Some ptr \<Rightarrow> dispatch_or_erase p w ptr s3)
      in case finished of None \<Rightarrow> s4 | Some c \<Rightarrow> destroy c s4)"

definition OnRecvMessage :: "platform \<Rightarrow> world \<Rightarrow> Server \<Rightarrow> Message \<Rightarrow> Server" where
  "OnRecvMessage p w s m =
     ProcessDiscardedFuncCallIfNecessary p w
       (if IsInvokeFuncMessage m then OnRecvMessage_invoke p s m
        else if IsFuncCallCompleteMessage m \<or> IsFuncCallFailedMessage m
        then OnRecvMessage_completion p w s m
        else s)"

section \<open>The gateway: closed connections\<close>

datatype ConnectionType =
  HttpConnection_kTypeId | GrpcConnection_kTypeId | MessageConnection_kTypeId | OtherTypeId

record Connection =
  connection_id :: nat
  connection_type :: ConnectionType
  handshake_done :: bool
  is_launcher_connection :: bool

text \<open>
  \<^verbatim>\<open>Server::OnConnectionClose\<close>. The two disconnect callbacks of
  \<^verbatim>\<open>WorkerManager\<close> are outside the file; what they can do to the server's tables
  is to call \<^verbatim>\<open>DiscardFuncCall\<close>, and \<open>lost\<close> is the list of the calls for which
  they do (by section 4.5 of the specification, the calls that were in flight on the
  connection). A failing \<^verbatim>\<open>DCHECK\<close> is \<open>None\<close>.
\<close>

definition OnConnectionClose :: "FuncCall list \<Rightarrow> Server \<Rightarrow> Connection \<Rightarrow> Server option" where
  "OnConnectionClose lost s connection =
     (if connection_type connection = HttpConnection_kTypeId
      then (if connection_id connection \<in> set (http_connections s)
            then Some (s\<lparr>http_connections :=
                           removeAll (connection_id connection) (http_connections s)\<rparr>)
            else None)
      else if connection_type connection = GrpcConnection_kTypeId
      then (if connection_id connection \<in> set (grpc_connections s)
            then Some (s\<lparr>grpc_connections :=
                           removeAll (connection_id connection) (grpc_connections s)\<rparr>)
            else None)
      else if connection_type connection = MessageConnection_kTypeId
      then (let s1 = (if handshake_done connection then fold DiscardFuncCall lost s else s)
            in Some (s1\<lparr>message_connections :=
                           removeAll (connection_id connection) (message_connections s1)\<rparr>))
      else Some s)"

section \<open>The gateway: runs\<close>

text \<open>
  What can happen to the server's tables, one event at a time: a new external call
  with the \<^verbatim>\<open>FuncCall\<close> its ingress function made for it (over HTTP with a path
  and a body, over gRPC with a service, a method and a body), a message from a worker,
  a call of \<^verbatim>\<open>DiscardFuncCall\<close>, and a call of the drain on its own (as
  \<^verbatim>\<open>OnNewHandshake\<close> makes after a worker's handshake). With each event comes what
  the world answers while its handler runs.
\<close>

datatype event =
    Ev_HttpCall FuncCall string bytes
  | Ev_GrpcCall FuncCall string string bytes
  | Ev_RecvMessage Message
  | Ev_DiscardFuncCall FuncCall
  | Ev_ProcessDiscarded

text \<open>
  A request context as the ingress layer hands it over: the request, and nothing of the
  response yet. Constructing an \<^verbatim>\<open>ExternalFuncCallContext\<close> increments the
  in-flight counter.
\<close>

definition new_http_context :: "string \<Rightarrow> bytes \<Rightarrow> HttpAsyncRequestContext" where
  "new_http_context path body =
     \<lparr>http_path = path, http_body = body, http_response_body = [], http_status = None,
      http_finish_calls = 0\<rparr>"

definition new_grpc_context :: "string \<Rightarrow> string \<Rightarrow> bytes \<Rightarrow> GrpcCallContext" where
  "new_grpc_context service meth body =
     \<lparr>service_name = service, method_name = meth, request_body = body,
      grpc_response_body = [], grpc_status = None, grpc_finish_calls = 0\<rparr>"

definition construct :: "Server \<Rightarrow> Server" where
  "construct s = s\<lparr>inflight_external_requests := inflight_external_requests s + 1\<rparr>"

fun step :: "platform \<Rightarrow> Server \<Rightarrow> world \<times> event \<Rightarrow> Server" where
  "step p s (w, Ev_HttpCall fc path body) =
     NewExternalFuncCall p w (construct s)
       (ExternalFuncCallContext_http fc (new_http_context path body))"
| "step p s (w, Ev_GrpcCall fc service meth body) =
     NewExternalFuncCall p w (construct s)
       (ExternalFuncCallContext_grpc fc (new_grpc_context service meth body))"
| "step p s (w, Ev_RecvMessage m) = OnRecvMessage p w s m"
| "step p s (w, Ev_DiscardFuncCall fc) = DiscardFuncCall fc s"
| "step p s (w, Ev_ProcessDiscarded) = ProcessDiscardedFuncCallIfNecessary p w s"

definition run :: "platform \<Rightarrow> Server \<Rightarrow> (world \<times> event) list \<Rightarrow> Server" where
  "run p s evs = foldl (step p) s evs"




section \<open>Derived notions used in the statements\<close>

text \<open>
  The context after the input step of \<^verbatim>\<open>DispatchExternalFuncCall\<close> when that step
  does not fail: with the input region that \<^verbatim>\<open>CreateShmInput\<close> made if the input is
  longer than \<^verbatim>\<open>MESSAGE_INLINE_DATA_SIZE\<close>, unchanged otherwise.
\<close>

definition with_input_region :: "platform \<Rightarrow> ExternalFuncCallContext \<Rightarrow> ExternalFuncCallContext" where
  "with_input_region p c =
     (if MESSAGE_INLINE_DATA_SIZE p < length (GetInput c)
      then c\<lparr>input_region :=
               Some \<lparr>region_name = FuncCallInput (full_call_id (call c)),
                     region_contents = GetInput c, remove_on_destruction = True\<rparr>\<rparr>
      else c)"

text \<open>
  Invariant 2 of the specification, with what makes the length of the association
  list the size of the hash map: the running table has one entry per key, and if the
  cap is not 0 it holds at most that many entries.
\<close>

definition within_cap :: "Server \<Rightarrow> bool" where
  "within_cap s =
     (distinct (map fst (running_external_func_calls s))
      \<and> (max_running_external_requests s = 0
         \<or> length (running_external_func_calls s) \<le> max_running_external_requests s))"

text \<open>
  The contexts that have entered the pending queue and those that have left it, each in
  order, read off the trace.
\<close>

fun pushes :: "action \<Rightarrow> ExternalFuncCallContext list" where
  "pushes (PendingPush c) = [c]"
| "pushes _ = []"

fun pops :: "action \<Rightarrow> ExternalFuncCallContext list" where
  "pops (PendingPop c) = [c]"
| "pops _ = []"

definition entered_pending :: "Server \<Rightarrow> ExternalFuncCallContext list" where
  "entered_pending s = concat (map pushes (trace s))"

definition left_pending :: "Server \<Rightarrow> ExternalFuncCallContext list" where
  "left_pending s = concat (map pops (trace s))"

text \<open>The admission test that every promotion and every admission makes.\<close>

definition has_room :: "Server \<Rightarrow> bool" where
  "has_room s =
     (max_running_external_requests s = 0
      \<or> length (running_external_func_calls s) < max_running_external_requests s)"

text \<open>First in, first out: what entered the queue is what left it, then what waits.\<close>

definition fifo :: "Server \<Rightarrow> bool" where
  "fifo s = (entered_pending s = left_pending s @ pending_external_func_calls s)"

text \<open>
  The \<^verbatim>\<open>full_call_id\<close>s of the external calls (\<^verbatim>\<open>client_id = 0\<close>) on a list of
  discarded calls.
\<close>

definition external_ids :: "FuncCall list \<Rightarrow> 64 word set" where
  "external_ids fcs = {full_call_id fc |fc. fc \<in> set fcs \<and> client_id fc = 0}"

text \<open>
  The life of a context. A context is identified by the \<^verbatim>\<open>full_call_id\<close> of its
  call. At any moment the contexts the server has seen are those in the running table,
  those in the pending queue and those already dropped. \<^verbatim>\<open>lifecycle\<close> says that no
  identifier occurs twice among them, that every entry of the running table is filed
  under the identifier of its context, that the contexts in the table and in the queue
  have not been finished, and that every dropped context has been finished exactly once.
\<close>

definition context_id :: "ExternalFuncCallContext \<Rightarrow> 64 word" where
  "context_id c = full_call_id (call c)"









section \<open>The finish variants, in the words of the specification\<close>

text \<open>
  The table of finalization paths of the specification, as the response each path
  leaves: delivering output appends the bytes to the response body; an error is the
  body \<^verbatim>\<open>Function call failed\<close> with status 500 over HTTP and the status
  \<^verbatim>\<open>UNKNOWN\<close> over gRPC; a dispatch failure is the body
  \<^verbatim>\<open>Dispatch failed for func_id N\<close> with status 404 over HTTP and the status
  \<^verbatim>\<open>UNIMPLEMENTED\<close> over gRPC. Each finalizes the request context once.
\<close>

definition spec_finish_output :: "bytes \<Rightarrow> ExternalFuncCallContext \<Rightarrow> ExternalFuncCallContext" where
  "spec_finish_output d c =
     c\<lparr>sink := (case sink c of
                  Http h \<Rightarrow> Http (h\<lparr>http_response_body := http_response_body h @ d,
                                     http_finish_calls := http_finish_calls h + 1\<rparr>)
                | Grpc g \<Rightarrow> Grpc (g\<lparr>grpc_response_body := grpc_response_body g @ d,
                                     grpc_finish_calls := grpc_finish_calls g + 1\<rparr>))\<rparr>"

definition spec_finish_error :: "ExternalFuncCallContext \<Rightarrow> ExternalFuncCallContext" where
  "spec_finish_error c =
     c\<lparr>sink := (case sink c of
                  Http h \<Rightarrow> Http (h\<lparr>http_response_body :=
                                        http_response_body h @ ''Function call failed'' @ [CHR 0x0A],
                                     http_status := Some 500,
                                     http_finish_calls := http_finish_calls h + 1\<rparr>)
                | Grpc g \<Rightarrow> Grpc (g\<lparr>grpc_status := Some UNKNOWN,
                                     grpc_finish_calls := grpc_finish_calls g + 1\<rparr>))\<rparr>"

definition spec_finish_dispatch_failure :: "ExternalFuncCallContext \<Rightarrow> ExternalFuncCallContext" where
  "spec_finish_dispatch_failure c =
     c\<lparr>sink := (case sink c of
                  Http h \<Rightarrow> Http (h\<lparr>http_response_body :=
                                        http_response_body h @ ''Dispatch failed for func_id ''
                                          @ decimal (unat (func_id (call c))) @ [CHR 0x0A],
                                     http_status := Some 404,
                                     http_finish_calls := http_finish_calls h + 1\<rparr>)
                | Grpc g \<Rightarrow> Grpc (g\<lparr>grpc_status := Some UNIMPLEMENTED,
                                     grpc_finish_calls := grpc_finish_calls g + 1\<rparr>))\<rparr>"

text \<open>
  Claim C4's account of a Complete or Failure message for the external call whose
  context is \<open>c\<close>: a Complete message delivers the output from shared memory when
  \<^verbatim>\<open>payload_size\<close> is negative (an error if the region cannot be opened) and from
  the inline payload otherwise; a Failure message is an error.
\<close>

definition spec_completion ::
  "world \<Rightarrow> Message \<Rightarrow> ExternalFuncCallContext \<Rightarrow> ExternalFuncCallContext" where
  "spec_completion w m c =
     (if message_type m = FUNC_CALL_COMPLETE
      then (if payload_size m < 0
            then (case ShmOpen w (FuncCallOutput (full_call_id (call c))) of
                    None \<Rightarrow> spec_finish_error c
                  | Some d \<Rightarrow>
                      spec_finish_output d
                        (c\<lparr>output_region :=
                             Some \<lparr>region_name = FuncCallOutput (full_call_id (call c)),
                                   region_contents = d, remove_on_destruction = True\<rparr>\<rparr>))
            else spec_finish_output (inline_data m) c)
      else spec_finish_error c)"

section \<open>Concrete inputs\<close>

text \<open>
  A small installation for the concrete instances below: inline data of at most 4
  bytes; a function \<^verbatim>\<open>echo\<close> with id 1 and a gRPC service \<^verbatim>\<open>svc\<close> with id 2 and
  one method \<^verbatim>\<open>Do\<close>; calls whose \<^verbatim>\<open>full_call_id\<close> is their call id.
\<close>

definition ex_call :: "16 word \<Rightarrow> 32 word \<Rightarrow> FuncCall" where
  "ex_call f i =
     \<lparr>func_id = f, method_id = 0, client_id = 0, call_id = i, full_call_id = ucast i\<rparr>"

definition ex_config :: FuncConfig where
  "ex_config =
     \<lparr>find_by_func_name =
        (\<lambda>n. if n = ''echo'' then Some \<lparr>entry_func_id = 1, grpc_method_ids = []\<rparr>
              else if n = ''grpc:svc''
              then Some \<lparr>entry_func_id = 2, grpc_method_ids = [(''Do'', 0)]\<rparr>
              else None),
      find_by_func_id =
        (\<lambda>i. if i = 1 then Some \<lparr>entry_func_id = 1, grpc_method_ids = []\<rparr>
              else if i = 2
              then Some \<lparr>entry_func_id = 2, grpc_method_ids = [(''Do'', 0)]\<rparr>
              else None)\<rparr>"

definition ex_platform :: platform where
  "ex_platform =
     \<lparr>MESSAGE_INLINE_DATA_SIZE = 4, func_config = ex_config,
      NewFuncCall = (\<lambda>f c i. (ex_call f i)\<lparr>client_id := c\<rparr>),
      NewFuncCallWithMethod = (\<lambda>f m c i. (ex_call f i)\<lparr>method_id := m, client_id := c\<rparr>)\<rparr>"

text \<open>
  A world in which shared memory works or not, in which an output region holds
  \<^verbatim>\<open>out\<close>, and in which the dispatcher accepts a call or not.
\<close>

definition ex_world :: "bool \<Rightarrow> bool \<Rightarrow> world" where
  "ex_world shm accepts =
     \<lparr>ShmCreate = (\<lambda>n len. shm),
      ShmOpen = (\<lambda>n. if shm then Some ''out'' else None),
      Dispatcher_OnNewFuncCall = (\<lambda>fc. accepts)\<rparr>"

definition ex_http :: "16 word \<Rightarrow> 32 word \<Rightarrow> bytes \<Rightarrow> ExternalFuncCallContext" where
  "ex_http f i body =
     ExternalFuncCallContext_http (ex_call f i) (new_http_context ''/function/echo'' body)"

definition ex_grpc :: "16 word \<Rightarrow> 32 word \<Rightarrow> bytes \<Rightarrow> ExternalFuncCallContext" where
  "ex_grpc f i body =
     ExternalFuncCallContext_grpc (ex_call f i) (new_grpc_context ''svc'' ''Do'' body)"

text \<open>A message of a given type about a call, and a server with given tables.\<close>

definition ex_message :: "MessageType \<Rightarrow> FuncCall \<Rightarrow> int \<Rightarrow> bytes \<Rightarrow> Message" where
  "ex_message ty fc n d =
     \<lparr>message_type = ty, msg_func_call = fc, parent_call_id = 0, payload_size = n,
      inline_data = d, processing_time = 0, dispatch_delay = 0\<rparr>"

definition ex_server :: "nat \<Rightarrow> ExternalFuncCallContext list \<Rightarrow> ExternalFuncCallContext list \<Rightarrow> Server" where
  "ex_server cap running pending =
     (Server_new cap)
       \<lparr>inflight_external_requests := int (length running + length pending),
        running_external_func_calls := map (\<lambda>c. (full_call_id (call c), c)) running,
        pending_external_func_calls := pending\<rparr>"

text \<open>A connection whose handshake is done and which is not a launcher's.\<close>

definition ex_connection :: "nat \<Rightarrow> ConnectionType \<Rightarrow> Connection" where
  "ex_connection i ty =
     \<lparr>connection_id = i, connection_type = ty, handshake_done = True,
      is_launcher_connection = False\<rparr>"

section \<open>Properties of the watchdog's connection\<close>

lemma ScheduleClose_state:
  "state (ScheduleClose c) =
     (if state c = kHandshake \<or> state c = kRunning then kClosing else state c)"
  by (simp add: ScheduleClose_def)

lemma ScheduleClose_not_Closed:
  "(state (ScheduleClose c) = kClosed) = (state c = kClosed)"
  by (auto simp: ScheduleClose_state)

lemma RecvHandshakeResponse_not_Closed:
  "state (RecvHandshakeResponse a c) = kClosed \<Longrightarrow> state c = kClosed"
  by (simp add: RecvHandshakeResponse_def Let_def split: if_splits)

lemma run_op_Closed:
  assumes "run_op sz op c = Some c'" and "state c' = kClosed" and "state c \<noteq> kClosed"
  shows "op = Op_CloseCallback"
proof (cases op)
  case (Op_Start p h)
  with assms show ?thesis by (auto simp: Start_def split: if_splits)
next
  case Op_ScheduleClose
  with assms show ?thesis by (auto simp: ScheduleClose_not_Closed)
next
  case (Op_RecvHandshakeResponse a)
  with assms show ?thesis by (auto dest: RecvHandshakeResponse_not_Closed)
next
  case (Op_WriteMessage m)
  with assms show ?thesis by (auto simp: WriteMessage_def split: if_splits)
next
  case (Op_ConnectCallback s)
  with assms show ?thesis
    by (auto simp: ConnectCallback_def ScheduleClose_not_Closed split: if_splits)
next
  case (Op_ReadHandshakeResponseCallback a n b)
  with assms show ?thesis
    by (auto simp: ReadHandshakeResponseCallback_def ScheduleClose_not_Closed Let_def
             split: if_splits dest: RecvHandshakeResponse_not_Closed)
next
  case (Op_WriteHandshakeCallback s)
  with assms show ?thesis
    by (auto simp: WriteHandshakeCallback_def ScheduleClose_not_Closed split: if_splits)
next
  case (Op_ReadMessageCallback n b)
  with assms show ?thesis
    by (auto simp: ReadMessageCallback_def ReadMessages_def ScheduleClose_not_Closed Let_def
             split: if_splits)
next
  case (Op_WriteMessageCallback s)
  with assms show ?thesis
    by (auto simp: WriteMessageCallback_def ScheduleClose_not_Closed split: if_splits)
next
  case Op_CloseCallback
  then show ?thesis by simp
qed

text \<open>
  Claim C10. The close path of the watchdog's GatewayConnection only moves forward.
  \<^verbatim>\<open>ScheduleClose\<close> puts the connection into \<^verbatim>\<open>kClosing\<close> exactly when it is in
  \<^verbatim>\<open>kHandshake\<close> or \<^verbatim>\<open>kRunning\<close>, and then asks libuv to close the handle once; in
  every other state it changes nothing at all, so a second call after the first is a
  no-op and the rank of the state never decreases. Of all the member functions, only
  the close callback takes a connection that is not \<^verbatim>\<open>kClosed\<close> to \<^verbatim>\<open>kClosed\<close>, and it
  always does. The destructor's check passes exactly in \<^verbatim>\<open>kCreated\<close> and \<^verbatim>\<open>kClosed\<close>.
\<close>

theorem C10_close_path_forward_only:
  "state (ScheduleClose c) =
     (if state c = kHandshake \<or> state c = kRunning then kClosing else state c)
   \<and> effects (ScheduleClose c) =
     (if state c = kHandshake \<or> state c = kRunning then effects c @ [uv_close]
      else effects c)
   \<and> (ScheduleClose c = c) = (state c \<noteq> kHandshake \<and> state c \<noteq> kRunning)
   \<and> ScheduleClose (ScheduleClose c) = ScheduleClose c
   \<and> state_rank (state c) \<le> state_rank (state (ScheduleClose c))
   \<and> (\<exists>c'. run_op sz op c = Some c' \<and> state c' = kClosed \<and> state c \<noteq> kClosed)
       = (op = Op_CloseCallback \<and> state c \<noteq> kClosed)
   \<and> state (CloseCallback c) = kClosed
   \<and> (GatewayConnection_destroy c = Some ()) = (state c = kCreated \<or> state c = kClosed)"
proof -
  have a: "(ScheduleClose c = c) = (state c \<noteq> kHandshake \<and> state c \<noteq> kRunning)"
  proof
    assume eq: "ScheduleClose c = c"
    show "state c \<noteq> kHandshake \<and> state c \<noteq> kRunning"
    proof (rule ccontr)
      assume "\<not> (state c \<noteq> kHandshake \<and> state c \<noteq> kRunning)"
      then have "state (ScheduleClose c) = kClosing" "state c \<noteq> kClosing"
        by (auto simp: ScheduleClose_state)
      with eq show False by simp
    qed
  next
    assume "state c \<noteq> kHandshake \<and> state c \<noteq> kRunning"
    then show "ScheduleClose c = c" by (simp add: ScheduleClose_def)
  qed
  have b: "ScheduleClose (ScheduleClose c) = ScheduleClose c"
    by (simp add: ScheduleClose_def)
  have d: "state_rank (state c) \<le> state_rank (state (ScheduleClose c))"
    by (cases "state c") (simp_all add: ScheduleClose_state)
  have e: "(\<exists>c'. run_op sz op c = Some c' \<and> state c' = kClosed \<and> state c \<noteq> kClosed)
       = (op = Op_CloseCallback \<and> state c \<noteq> kClosed)"
    by (auto dest: run_op_Closed simp: CloseCallback_def)
  have f: "(GatewayConnection_destroy c = Some ()) = (state c = kCreated \<or> state c = kClosed)"
    by (simp add: GatewayConnection_destroy_def)
  show ?thesis
    using a b d e f by (simp add: ScheduleClose_def CloseCallback_def)
qed

section \<open>Properties of the gateway: the basic operations\<close>

lemma destroy_fields [simp]:
  "max_running_external_requests (destroy c s) = max_running_external_requests s"
  "next_call_id (destroy c s) = next_call_id s"
  "inflight_external_requests (destroy c s) = inflight_external_requests s - 1"
  "running_external_func_calls (destroy c s) = running_external_func_calls s"
  "pending_external_func_calls (destroy c s) = pending_external_func_calls s"
  "dispatchers (destroy c s) = dispatchers s"
  "discarded_func_calls (destroy c s) = discarded_func_calls s"
  "destroyed (destroy c s) = destroyed s @ [c]"
  "trace (destroy c s) = trace s"
  by (simp_all add: destroy_def split: option.splits)

lemma assign_running_fields [simp]:
  "max_running_external_requests (assign_running k c s) = max_running_external_requests s"
  "next_call_id (assign_running k c s) = next_call_id s"
  "inflight_external_requests (assign_running k c s) = inflight_external_requests s - (case map_of (running_external_func_calls s) k of None \<Rightarrow> 0 | Some old \<Rightarrow> 1)"
  "running_external_func_calls (assign_running k c s) = AList.update k c (running_external_func_calls s)"
  "pending_external_func_calls (assign_running k c s) = pending_external_func_calls s"
  "dispatchers (assign_running k c s) = dispatchers s"
  "discarded_func_calls (assign_running k c s) = discarded_func_calls s"
  "destroyed (assign_running k c s) = destroyed s @ (case map_of (running_external_func_calls s) k of None \<Rightarrow> [] | Some old \<Rightarrow> [old])"
  "trace (assign_running k c s) = trace s"
  by (simp_all add: assign_running_def destroy_def Let_def split: option.splits)

lemma delete_absent: "map_of al k = None \<Longrightarrow> AList.delete k al = al"
  by (simp add: AList.delete_id map_of_eq_None_iff)

lemma update_absent: "k \<notin> fst ` set r \<Longrightarrow> AList.update k c r = r @ [(k, c)]"
  by (induction r) auto

lemma erase_running_fields [simp]:
  "max_running_external_requests (erase_running k s) = max_running_external_requests s"
  "next_call_id (erase_running k s) = next_call_id s"
  "inflight_external_requests (erase_running k s) = inflight_external_requests s - (case map_of (running_external_func_calls s) k of None \<Rightarrow> 0 | Some old \<Rightarrow> 1)"
  "running_external_func_calls (erase_running k s) = AList.delete k (running_external_func_calls s)"
  "pending_external_func_calls (erase_running k s) = pending_external_func_calls s"
  "dispatchers (erase_running k s) = dispatchers s"
  "discarded_func_calls (erase_running k s) = discarded_func_calls s"
  "destroyed (erase_running k s) = destroyed s @ (case map_of (running_external_func_calls s) k of None \<Rightarrow> [] | Some old \<Rightarrow> [old])"
  "trace (erase_running k s) = trace s"
  by (simp_all add: erase_running_def destroy_def delete_absent split: option.splits)

lemma store_fields [simp]:
  "max_running_external_requests (store k c s) = max_running_external_requests s"
  "next_call_id (store k c s) = next_call_id s"
  "inflight_external_requests (store k c s) = inflight_external_requests s"
  "running_external_func_calls (store k c s) = AList.update k c (running_external_func_calls s)"
  "pending_external_func_calls (store k c s) = pending_external_func_calls s"
  "dispatchers (store k c s) = dispatchers s"
  "discarded_func_calls (store k c s) = discarded_func_calls s"
  "destroyed (store k c s) = destroyed s"
  "trace (store k c s) = trace s"
  by (simp_all add: store_def split: option.splits)

lemma log_action_fields [simp]:
  "max_running_external_requests (log_action a s) = max_running_external_requests s"
  "next_call_id (log_action a s) = next_call_id s"
  "inflight_external_requests (log_action a s) = inflight_external_requests s"
  "running_external_func_calls (log_action a s) = running_external_func_calls s"
  "pending_external_func_calls (log_action a s) = pending_external_func_calls s"
  "dispatchers (log_action a s) = dispatchers s"
  "discarded_func_calls (log_action a s) = discarded_func_calls s"
  "destroyed (log_action a s) = destroyed s"
  "trace (log_action a s) = trace s @ [a]"
  by (simp_all add: log_action_def split: option.splits)

lemma construct_fields [simp]:
  "max_running_external_requests (construct s) = max_running_external_requests s"
  "next_call_id (construct s) = next_call_id s"
  "inflight_external_requests (construct s) = inflight_external_requests s + 1"
  "running_external_func_calls (construct s) = running_external_func_calls s"
  "pending_external_func_calls (construct s) = pending_external_func_calls s"
  "dispatchers (construct s) = dispatchers s"
  "discarded_func_calls (construct s) = discarded_func_calls s"
  "destroyed (construct s) = destroyed s"
  "trace (construct s) = trace s"
  by (simp_all add: construct_def split: option.splits)

lemma DiscardFuncCall_fields [simp]:
  "max_running_external_requests (DiscardFuncCall fc s) = max_running_external_requests s"
  "next_call_id (DiscardFuncCall fc s) = next_call_id s"
  "inflight_external_requests (DiscardFuncCall fc s) = inflight_external_requests s"
  "running_external_func_calls (DiscardFuncCall fc s) = running_external_func_calls s"
  "pending_external_func_calls (DiscardFuncCall fc s) = pending_external_func_calls s"
  "dispatchers (DiscardFuncCall fc s) = dispatchers s"
  "discarded_func_calls (DiscardFuncCall fc s) = discarded_func_calls s @ [fc]"
  "destroyed (DiscardFuncCall fc s) = destroyed s"
  "trace (DiscardFuncCall fc s) = trace s"
  by (simp_all add: DiscardFuncCall_def split: option.splits)

lemma GetOrCreateDispatcherLocked_fields [simp]:
  "max_running_external_requests (fst (GetOrCreateDispatcherLocked p s fid)) = max_running_external_requests s"
  "next_call_id (fst (GetOrCreateDispatcherLocked p s fid)) = next_call_id s"
  "inflight_external_requests (fst (GetOrCreateDispatcherLocked p s fid)) = inflight_external_requests s"
  "running_external_func_calls (fst (GetOrCreateDispatcherLocked p s fid)) = running_external_func_calls s"
  "pending_external_func_calls (fst (GetOrCreateDispatcherLocked p s fid)) = pending_external_func_calls s"
  "discarded_func_calls (fst (GetOrCreateDispatcherLocked p s fid)) = discarded_func_calls s"
  "destroyed (fst (GetOrCreateDispatcherLocked p s fid)) = destroyed s"
  "trace (fst (GetOrCreateDispatcherLocked p s fid)) = trace s"
  by (simp_all add: GetOrCreateDispatcherLocked_def)

lemma Dispatch_None:
  "map_of (running_external_func_calls s) ptr = None \<Longrightarrow>
     DispatchExternalFuncCall p w s ptr = (s, False)"
  by (simp add: DispatchExternalFuncCall_def)

lemma Dispatch_Some:
  assumes "map_of (running_external_func_calls s) ptr = Some c"
  shows "DispatchExternalFuncCall p w s ptr =
     (if MESSAGE_INLINE_DATA_SIZE p < length (GetInput c)
         \<and> \<not> ShmCreate w (FuncCallInput (full_call_id (call c))) (length (GetInput c))
      then (store ptr (FinishWithError c) s, False)
      else if func_id (call c) \<notin> set (dispatchers s)
              \<and> find_by_func_id (func_config p) (func_id (call c)) = None
      then (store ptr (FinishWithDispatchFailure (with_input_region p c))
              (store ptr (with_input_region p c) s), False)
      else let s2 = log_action
                      (if length (GetInput c) \<le> MESSAGE_INLINE_DATA_SIZE p
                       then Dispatcher_NewFuncCall (call c) None (length (GetInput c)) (GetInput c) False
                       else Dispatcher_NewFuncCall (call c) None (length (GetInput c)) [] True)
                      (fst (GetOrCreateDispatcherLocked p (store ptr (with_input_region p c) s)
                              (func_id (call c))))
           in if Dispatcher_OnNewFuncCall w (call c) then (s2, True)
              else (store ptr (FinishWithDispatchFailure (with_input_region p c)) s2, False))"
  using assms
  by (simp add: DispatchExternalFuncCall_def CreateShmInput_def GetOrCreateDispatcherLocked_def
        with_input_region_def Let_def store_def)

lemma Dispatch_fields [simp]:
  "max_running_external_requests (fst (DispatchExternalFuncCall p w s ptr)) = max_running_external_requests s"
  "next_call_id (fst (DispatchExternalFuncCall p w s ptr)) = next_call_id s"
  "inflight_external_requests (fst (DispatchExternalFuncCall p w s ptr)) = inflight_external_requests s"
  "pending_external_func_calls (fst (DispatchExternalFuncCall p w s ptr)) = pending_external_func_calls s"
  "discarded_func_calls (fst (DispatchExternalFuncCall p w s ptr)) = discarded_func_calls s"
  "destroyed (fst (DispatchExternalFuncCall p w s ptr)) = destroyed s"
  by (cases "map_of (running_external_func_calls s) ptr";
      simp add: Dispatch_None Dispatch_Some Let_def)+

lemma update_present_keys:
  "map_of al k = Some v \<Longrightarrow> map fst (AList.update k v' al) = map fst al"
  by (auto simp: AList.update_keys dest: map_of_SomeD intro: rev_image_eqI)

lemma Dispatch_keys [simp]:
  "map fst (running_external_func_calls (fst (DispatchExternalFuncCall p w s ptr)))
     = map fst (running_external_func_calls s)"
  by (cases "map_of (running_external_func_calls s) ptr")
     (simp_all add: Dispatch_None Dispatch_Some Let_def update_present_keys AList.update_conv')

lemma Dispatch_success:
  "snd (DispatchExternalFuncCall p w s ptr) \<Longrightarrow>
     map_of (running_external_func_calls (fst (DispatchExternalFuncCall p w s ptr))) ptr \<noteq> None"
  by (cases "map_of (running_external_func_calls s) ptr")
     (simp_all add: Dispatch_None Dispatch_Some Let_def AList.update_conv' split: if_splits)

section \<open>Properties of the gateway: dropped contexts are never forgotten\<close>

text \<open>
  No handler removes an element of \<^verbatim>\<open>destroyed\<close>: each only appends to it.
\<close>

lemma prefix_destroyed_destroy: "prefix (destroyed s) (destroyed (destroy c s))"
  by simp

lemma prefix_destroyed_erase: "prefix (destroyed s) (destroyed (erase_running k s))"
  by simp

lemma prefix_destroyed_assign: "prefix (destroyed s) (destroyed (assign_running k c s))"
  by simp

lemma prefix_destroyed_dispatch_or_erase:
  "prefix (destroyed s) (destroyed (dispatch_or_erase p w ptr s))"
  by (simp add: dispatch_or_erase_def split_beta)

lemma prefix_destroyed_fold_dispatch:
  "prefix (destroyed s) (destroyed (fold (dispatch_or_erase p w) ptrs s))"
proof (induction ptrs arbitrary: s)
  case Nil
  show ?case by simp
next
  case (Cons ptr ptrs)
  have "prefix (destroyed s) (destroyed (dispatch_or_erase p w ptr s))"
    by (rule prefix_destroyed_dispatch_or_erase)
  also have "prefix \<dots> (destroyed (fold (dispatch_or_erase p w) ptrs (dispatch_or_erase p w ptr s)))"
    by (rule Cons.IH)
  finally show ?case by simp
qed

lemma fold_destroy:
  "fold destroy cs s =
     s\<lparr>destroyed := destroyed s @ cs,
       inflight_external_requests := inflight_external_requests s - int (length cs)\<rparr>"
  by (induction cs arbitrary: s) (simp_all add: destroy_def)

lemma fold_log_action:
  "fold (\<lambda>x. log_action (f x)) xs s = s\<lparr>trace := trace s @ map f xs\<rparr>"
  by (induction xs arbitrary: s) (simp_all add: log_action_def)

lemma finish_discarded_fields [simp]:
  "max_running_external_requests (finish_discarded ext s) = max_running_external_requests s"
  "next_call_id (finish_discarded ext s) = next_call_id s"
  "inflight_external_requests (finish_discarded ext s) = inflight_external_requests s - int (length ext)"
  "running_external_func_calls (finish_discarded ext s) = running_external_func_calls s"
  "pending_external_func_calls (finish_discarded ext s) = pending_external_func_calls s"
  "dispatchers (finish_discarded ext s) = dispatchers s"
  "discarded_func_calls (finish_discarded ext s) = discarded_func_calls s"
  "destroyed (finish_discarded ext s) = destroyed s @ map FinishWithDispatchFailure ext"
  "trace (finish_discarded ext s) = trace s"
  by (simp_all add: finish_discarded_def fold_destroy)

lemma fail_internal_fields [simp]:
  "max_running_external_requests (fail_internal internal s) = max_running_external_requests s"
  "next_call_id (fail_internal internal s) = next_call_id s"
  "inflight_external_requests (fail_internal internal s) = inflight_external_requests s"
  "running_external_func_calls (fail_internal internal s) = running_external_func_calls s"
  "pending_external_func_calls (fail_internal internal s) = pending_external_func_calls s"
  "dispatchers (fail_internal internal s) = dispatchers s"
  "discarded_func_calls (fail_internal internal s) = discarded_func_calls s"
  "destroyed (fail_internal internal s) = destroyed s"
  "trace (fail_internal internal s)
     = trace s @ map (\<lambda>fc. WorkerLib_FuncCallFinished fc False [] 0) internal"
  by (simp_all add: fail_internal_def fold_log_action)

lemma promote_pending_prefix_destroyed:
  "prefix (destroyed s) (destroyed (fst (promote_pending s acc)))"
proof (induction s acc rule: promote_pending.induct)
  case (1 s acc)
  show ?case
  proof (cases "pending_external_func_calls s")
    case Nil
    then show ?thesis by (simp add: promote_pending.simps)
  next
    case (Cons c rest)
    show ?thesis
    proof (cases "max_running_external_requests s = 0
             \<or> length (running_external_func_calls s) < max_running_external_requests s")
      case True
      let ?s1 = "assign_running (full_call_id (call c)) c
                    (log_action (PendingPop c) (s\<lparr>pending_external_func_calls := rest\<rparr>))"
      have "prefix (destroyed s) (destroyed ?s1)" by simp
      also have "prefix \<dots> (destroyed (fst (promote_pending ?s1 (acc @ [full_call_id (call c)]))))"
        using "1.IH" [OF Cons True] .
      finally show ?thesis using Cons True by (subst promote_pending.simps) simp
    next
      case False
      then show ?thesis using Cons by (subst promote_pending.simps) auto
    qed
  qed
qed

lemma ProcessDiscarded_locked_prefix_destroyed:
  "prefix (destroyed s) (destroyed (fst (ProcessDiscarded_locked s)))"
proof -
  obtain running ext internal where c:
    "collect_discarded (discarded_func_calls s) (running_external_func_calls s) [] []
       = (running, ext, internal)"
    by (cases "collect_discarded (discarded_func_calls s) (running_external_func_calls s) [] []") auto
  let ?s1 = "s\<lparr>running_external_func_calls := running, discarded_func_calls := []\<rparr>"
  have "prefix (destroyed ?s1) (destroyed (fst (promote_pending ?s1 [])))"
    by (rule promote_pending_prefix_destroyed)
  then show ?thesis
    by (simp add: ProcessDiscarded_locked_def c Let_def split_beta)
qed

lemma ProcessDiscarded_prefix_destroyed:
  "prefix (destroyed s) (destroyed (ProcessDiscardedFuncCallIfNecessary p w s))"
proof -
  obtain s1 ext internal ptrs where l: "ProcessDiscarded_locked s = (s1, ext, internal, ptrs)"
    by (cases "ProcessDiscarded_locked s") auto
  have "prefix (destroyed s) (destroyed s1)"
    using ProcessDiscarded_locked_prefix_destroyed [of s] l by simp
  also have "prefix \<dots> (destroyed (fail_internal internal (finish_discarded ext s1)))"
    by simp
  also have "prefix \<dots> (destroyed (fold (dispatch_or_erase p w) ptrs
                 (fail_internal internal (finish_discarded ext s1))))"
    by (rule prefix_destroyed_fold_dispatch)
  finally show ?thesis by (simp add: ProcessDiscardedFuncCallIfNecessary_def l)
qed

section \<open>Properties of the gateway: the finish variants\<close>

text \<open>
  The four finishing functions of the context leave the responses that the
  specification tabulates.
\<close>

lemma FinishWithError_spec: "FinishWithError c = spec_finish_error c"
  by (cases "sink c") (simp_all add: FinishWithError_def Finish_def spec_finish_error_def)

lemma FinishWithDispatchFailure_spec:
  "FinishWithDispatchFailure c = spec_finish_dispatch_failure c"
  by (cases "sink c")
     (simp_all add: FinishWithDispatchFailure_def Finish_def spec_finish_dispatch_failure_def)

lemma FinishWithOutput_spec: "FinishWithOutput d c = spec_finish_output d c"
  by (cases "sink c"; cases d)
     (simp_all add: FinishWithOutput_def Finish_def spec_finish_output_def AppendToResponseBody_def)

lemma FinishWithShmOutput_spec:
  "FinishWithShmOutput w c =
     (case ShmOpen w (FuncCallOutput (full_call_id (call c))) of
        None \<Rightarrow> spec_finish_error c
      | Some d \<Rightarrow>
          spec_finish_output d
            (c\<lparr>output_region :=
                 Some \<lparr>region_name = FuncCallOutput (full_call_id (call c)),
                       region_contents = d, remove_on_destruction = True\<rparr>\<rparr>))"
proof (cases "ShmOpen w (FuncCallOutput (full_call_id (call c)))")
  case None
  then show ?thesis by (simp add: FinishWithShmOutput_def FinishWithError_spec)
next
  case (Some d)
  then show ?thesis
    by (cases "sink c"; cases d)
       (simp_all add: FinishWithShmOutput_def Finish_def spec_finish_output_def
          AppendToResponseBody_def Let_def)
qed

lemma finish_external_spec:
  "IsFuncCallCompleteMessage m \<or> IsFuncCallFailedMessage m \<Longrightarrow>
     finish_external w m c = spec_completion w m c"
  by (auto simp: finish_external_def spec_completion_def IsFuncCallCompleteMessage_def
        IsFuncCallFailedMessage_def FinishWithShmOutput_spec FinishWithOutput_spec
        FinishWithError_spec)

lemma finish_calls_spec [simp]:
  "finish_calls (spec_finish_error c) = Suc (finish_calls c)"
  "finish_calls (spec_finish_dispatch_failure c) = Suc (finish_calls c)"
  "finish_calls (spec_finish_output d c) = Suc (finish_calls c)"
  by (cases "sink c";
      simp add: finish_calls_def spec_finish_error_def spec_finish_dispatch_failure_def
        spec_finish_output_def)+

lemma finish_calls_spec_completion [simp]:
  "finish_calls (spec_completion w m c) = Suc (finish_calls c)"
  by (simp add: spec_completion_def finish_calls_def[of "c\<lparr>output_region := x\<rparr>" for x]
        finish_calls_def[of c] split: option.splits)

lemma OnRecvMessage_locked_context:
  assumes "client_id (msg_func_call m) = 0"
    and "map_of (running_external_func_calls s) (full_call_id (msg_func_call m)) = Some c"
  shows "fst (snd (OnRecvMessage_locked p s m)) = Some c"
  using assms
  by (simp add: OnRecvMessage_locked_def Let_def split_beta split: list.splits)

lemma OnRecvMessage_completion_destroyed:
  assumes "client_id (msg_func_call m) = 0"
    and "map_of (running_external_func_calls s) (full_call_id (msg_func_call m)) = Some c"
  shows "finish_external w m c \<in> set (destroyed (OnRecvMessage_completion p w s m))"
  using assms OnRecvMessage_locked_context [OF assms, of p]
  by (simp add: OnRecvMessage_completion_def Let_def split_beta)

section \<open>Properties of the gateway: admission\<close>

text \<open>
  Claim C1. For every new external call \<open>c\<close>, the critical section of
  \<^verbatim>\<open>NewExternalFuncCall\<close> does one of two things. If the cap is 0 or the running
  table holds fewer entries than the cap, it puts \<open>c\<close> into the running table under
  its \<^verbatim>\<open>full_call_id\<close>, leaves the pending queue alone and marks \<open>c\<close> for
  dispatch; then \<open>c\<close> is dispatched, and if the dispatch fails the entry of \<open>c\<close> is
  erased from the running table, while after a successful dispatch it is still there.
  Otherwise it leaves the running table alone, pushes \<open>c\<close> onto the back of the
  pending queue and marks nothing, and the handler ends there.
\<close>

theorem C1_admission:
  "(let k = full_call_id (call c);
        locked = NewExternalFuncCall_locked s c;
        dispatched = DispatchExternalFuncCall p w (fst locked) k;
        s' = NewExternalFuncCall p w s c
    in if max_running_external_requests s = 0
          \<or> length (running_external_func_calls s) < max_running_external_requests s
       then snd locked = Some k
          \<and> map_of (running_external_func_calls (fst locked))
              = (map_of (running_external_func_calls s))(k \<mapsto> c)
          \<and> pending_external_func_calls (fst locked) = pending_external_func_calls s
          \<and> (if snd dispatched
              then s' = fst dispatched \<and> map_of (running_external_func_calls s') k \<noteq> None
              else s' = erase_running k (fst dispatched)
                 \<and> map_of (running_external_func_calls s') k = None)
       else snd locked = None
          \<and> running_external_func_calls (fst locked) = running_external_func_calls s
          \<and> pending_external_func_calls (fst locked) = pending_external_func_calls s @ [c]
          \<and> s' = fst locked)"
proof -
  have ok: "map_of (running_external_func_calls x1) ptr \<noteq> None"
    if "DispatchExternalFuncCall p w t ptr = (x1, True)" for t ptr x1
    using Dispatch_success [of p w t ptr] that by simp
  show ?thesis
    by (auto simp: NewExternalFuncCall_def NewExternalFuncCall_locked_def dispatch_or_erase_def
          Let_def AList.update_conv' AList.delete_conv' split: prod.splits dest: ok)
qed

text \<open>
  A call admitted under a cap of 1 whose dispatcher refuses it is erased and dropped with
  the dispatch-failure response; a call that arrives while the table is full is queued.
\<close>

theorem C1_admission_witness:
  "NewExternalFuncCall ex_platform (ex_world True False) (construct (ex_server 1 [] []))
       (ex_http 1 7 ''hi'')
     = (ex_server 1 [] [])
         \<lparr>dispatchers := [1],
          destroyed := [spec_finish_dispatch_failure (ex_http 1 7 ''hi'')],
          trace := [Dispatcher_NewFuncCall (ex_call 1 7) None 2 ''hi'' False]\<rparr>
   \<and> NewExternalFuncCall ex_platform (ex_world True True) (ex_server 1 [ex_http 1 7 ''hi''] [])
       (ex_http 1 8 ''ho'')
     = (ex_server 1 [ex_http 1 7 ''hi''] [])
         \<lparr>pending_external_func_calls := [ex_http 1 8 ''ho''],
          trace := [PendingPush (ex_http 1 8 ''ho'')]\<rparr>"
  using C1_admission [of "ex_http 1 7 ''hi''" "construct (ex_server 1 [] [])" ex_platform
      "ex_world True False"]
    C1_admission [of "ex_http 1 8 ''ho''" "ex_server 1 [ex_http 1 7 ''hi''] []" ex_platform
      "ex_world True True"]
  by (simp add: Let_def NewExternalFuncCall_locked_def ex_server_def Server_new_def
        Dispatch_Some ex_http_def ex_call_def ExternalFuncCallContext_http_def
        new_http_context_def GetInput_def ex_platform_def ex_config_def ex_world_def
        with_input_region_def assign_running_def erase_running_def store_def log_action_def
        destroy_def construct_def GetOrCreateDispatcherLocked_def FinishWithDispatchFailure_spec)

section \<open>Properties of the gateway: completion\<close>

text \<open>
  Claim C4. Let a Complete or Failure message arrive for an external call
  (\<^verbatim>\<open>client_id = 0\<close>) whose context \<open>c\<close> is in the running table. Then the critical
  section moves \<open>c\<close> out of the table, and the handler finishes it as the claim says:
  a Complete message with negative \<^verbatim>\<open>payload_size\<close> delivers the contents of the
  output region, or an error (HTTP 500, gRPC \<^verbatim>\<open>UNKNOWN\<close>) if the region cannot be
  opened; a Complete message with non-negative \<^verbatim>\<open>payload_size\<close> delivers the inline
  payload; a Failure message is an error. The context is finalized exactly once by
  this, and it is dropped with that response before the handler returns.
\<close>

theorem C4_completion_delivery:
  assumes "IsFuncCallCompleteMessage m \<or> IsFuncCallFailedMessage m"
    and "client_id (msg_func_call m) = 0"
    and "map_of (running_external_func_calls s) (full_call_id (msg_func_call m)) = Some c"
  shows "fst (snd (OnRecvMessage_locked p s m)) = Some c
       \<and> finish_external w m c = spec_completion w m c
       \<and> spec_completion w m c \<in> set (destroyed (OnRecvMessage p w s m))
       \<and> finish_calls (spec_completion w m c) = Suc (finish_calls c)"
proof -
  have not_invoke: "\<not> IsInvokeFuncMessage m"
    using assms(1)
    by (auto simp: IsInvokeFuncMessage_def IsFuncCallCompleteMessage_def
          IsFuncCallFailedMessage_def)
  have "finish_external w m c \<in> set (destroyed (OnRecvMessage_completion p w s m))"
    by (rule OnRecvMessage_completion_destroyed [OF assms(2,3)])
  moreover have "set (destroyed (OnRecvMessage_completion p w s m))
      \<subseteq> set (destroyed (OnRecvMessage p w s m))"
    using assms(1) not_invoke
    by (auto simp: OnRecvMessage_def intro!: set_mono_prefix ProcessDiscarded_prefix_destroyed)
  ultimately show ?thesis
    using finish_external_spec [OF assms(1), of w c]
      OnRecvMessage_locked_context [OF assms(2,3), of p]
    by auto
qed

theorem C4_completion_delivery_witness:
  "spec_completion (ex_world True True) (ex_message FUNC_CALL_COMPLETE (ex_call 1 7) (- 3) [])
      (ex_http 1 7 ''hi'')
     = (ex_http 1 7 ''hi'')
         \<lparr>sink := Http ((new_http_context ''/function/echo'' ''hi'')
                          \<lparr>http_response_body := ''out'', http_finish_calls := 1\<rparr>),
          output_region := Some \<lparr>region_name = FuncCallOutput 7, region_contents = ''out'',
                                  remove_on_destruction = True\<rparr>\<rparr>
   \<and> spec_completion (ex_world True True) (ex_message FUNC_CALL_COMPLETE (ex_call 1 7) (- 3) [])
        (ex_http 1 7 ''hi'')
     \<in> set (destroyed (OnRecvMessage ex_platform (ex_world True True)
                (ex_server 2 [ex_http 1 7 ''hi''] [])
                (ex_message FUNC_CALL_COMPLETE (ex_call 1 7) (- 3) [])))"
  using C4_completion_delivery [of "ex_message FUNC_CALL_COMPLETE (ex_call 1 7) (- 3) []"
      "ex_server 2 [ex_http 1 7 ''hi''] []" "ex_http 1 7 ''hi''" ex_platform "ex_world True True"]
  by (simp add: ex_message_def ex_server_def ex_http_def ex_call_def ex_world_def
        ExternalFuncCallContext_http_def IsFuncCallCompleteMessage_def spec_completion_def
        spec_finish_output_def new_http_context_def)

section \<open>Properties of the gateway: failure to create the input region\<close>

text \<open>
  Claim C5, as amended. Let \<open>ptr\<close> point to the context \<open>c\<close> of an external call
  whose input is longer than \<^verbatim>\<open>MESSAGE_INLINE_DATA_SIZE\<close>, and let the creation of
  the input region fail. Then \<^verbatim>\<open>DispatchExternalFuncCall\<close> finalizes \<open>c\<close> with an
  error (HTTP 500 with the body \<^verbatim>\<open>Function call failed\<close>, gRPC \<^verbatim>\<open>UNKNOWN\<close>),
  changes nothing else and returns false; the caller then erases the entry, and the
  context is dropped with that response.
\<close>

theorem C5_shm_create_failure:
  assumes "map_of (running_external_func_calls s) ptr = Some c"
    and "MESSAGE_INLINE_DATA_SIZE p < length (GetInput c)"
    and "\<not> ShmCreate w (FuncCallInput (full_call_id (call c))) (length (GetInput c))"
  shows "DispatchExternalFuncCall p w s ptr = (store ptr (spec_finish_error c) s, False)
       \<and> map_of (running_external_func_calls (fst (DispatchExternalFuncCall p w s ptr))) ptr
           = Some (spec_finish_error c)
       \<and> destroyed (dispatch_or_erase p w ptr s) = destroyed s @ [spec_finish_error c]
       \<and> map_of (running_external_func_calls (dispatch_or_erase p w ptr s)) ptr = None"
  using assms
  by (simp add: Dispatch_Some FinishWithError_spec AList.update_conv' AList.delete_conv'
        dispatch_or_erase_def)

theorem C5_shm_create_failure_witness:
  "destroyed (dispatch_or_erase ex_platform (ex_world False True) 7
       (ex_server 2 [ex_http 1 7 ''hello''] []))
     = [(ex_http 1 7 ''hello'')
          \<lparr>sink := Http ((new_http_context ''/function/echo'' ''hello'')
                           \<lparr>http_response_body := ''Function call failed'' @ [CHR 0x0A],
                            http_status := Some 500, http_finish_calls := 1\<rparr>)\<rparr>]"
  using C5_shm_create_failure [of "ex_server 2 [ex_http 1 7 ''hello''] []" 7
      "ex_http 1 7 ''hello''" ex_platform "ex_world False True"]
  by (simp add: ex_server_def ex_http_def ex_call_def ex_world_def ex_platform_def
        ExternalFuncCallContext_http_def GetInput_def spec_finish_error_def
        new_http_context_def Server_new_def)

text \<open>
  Claim C5 as stated fails: with an inline limit of 4 bytes, an HTTP call for function
  1 with the 5-byte body \<^verbatim>\<open>hello\<close> whose input region cannot be created is dropped
  with status 500 and the body \<^verbatim>\<open>Function call failed\<close>, which is not the
  dispatch-failure response (404, \<^verbatim>\<open>Dispatch failed for func_id 1\<close>).
\<close>

theorem C5_counterexample:
  "destroyed (NewExternalFuncCall ex_platform (ex_world False True) (Server_new 2)
       (ex_http 1 7 ''hello''))
     = [spec_finish_error (ex_http 1 7 ''hello'')]
   \<and> spec_finish_error (ex_http 1 7 ''hello'')
       \<noteq> spec_finish_dispatch_failure (ex_http 1 7 ''hello'')
   \<and> sink (spec_finish_error (ex_http 1 7 ''hello''))
       = Http ((new_http_context ''/function/echo'' ''hello'')
                 \<lparr>http_response_body := ''Function call failed'' @ [CHR 0x0A],
                  http_status := Some 500, http_finish_calls := 1\<rparr>)"
  by (simp add: NewExternalFuncCall_def NewExternalFuncCall_locked_def dispatch_or_erase_def
        Dispatch_Some Server_new_def ex_http_def ex_call_def ex_world_def ex_platform_def
        ExternalFuncCallContext_http_def GetInput_def spec_finish_error_def
        spec_finish_dispatch_failure_def new_http_context_def FinishWithError_spec
        assign_running_def erase_running_def store_def destroy_def Let_def)

lemma NewExternalFuncCall_next_call_id [simp]:
  "next_call_id (NewExternalFuncCall p w s c) = next_call_id s"
  by (simp add: NewExternalFuncCall_def NewExternalFuncCall_locked_def dispatch_or_erase_def
        split_beta Let_def)

section \<open>Properties of the gateway: gRPC calls that are not found\<close>

text \<open>
  Claim C9. A gRPC call whose service has no entry \<^verbatim>\<open>grpc:<service>\<close> in the
  configuration, or whose method is not among the methods of the entry, gets the status
  \<^verbatim>\<open>NOT_FOUND\<close> and is finished once, at once; the server is left exactly as it
  was: no call id is taken, no context is constructed (the in-flight counter stays), and
  the running table and the pending queue are unchanged. Every other call takes the
  next call id and enters the core.
\<close>

theorem C9_grpc_not_found:
  "OnNewGrpcCall p w s cc =
     (if find_by_func_name (func_config p) (''grpc:'' @ service_name cc) = None
         \<or> (\<exists>e. find_by_func_name (func_config p) (''grpc:'' @ service_name cc) = Some e
                \<and> method_name cc \<notin> fst ` set (grpc_method_ids e))
      then (s, Some (cc\<lparr>grpc_status := Some NOT_FOUND,
                         grpc_finish_calls := Suc (grpc_finish_calls cc)\<rparr>))
      else (fst (OnNewGrpcCall p w s cc), None))
   \<and> next_call_id (fst (OnNewGrpcCall p w s cc)) =
     (if find_by_func_name (func_config p) (''grpc:'' @ service_name cc) = None
         \<or> (\<exists>e. find_by_func_name (func_config p) (''grpc:'' @ service_name cc) = Some e
                \<and> method_name cc \<notin> fst ` set (grpc_method_ids e))
      then next_call_id s else next_call_id s + 1)"
proof (cases "find_by_func_name (func_config p) (''grpc:'' @ service_name cc)")
  case None
  then show ?thesis by (simp add: OnNewGrpcCall_def)
next
  case (Some e)
  show ?thesis
  proof (cases "map_of (grpc_method_ids e) (method_name cc)")
    case None
    then have "method_name cc \<notin> fst ` set (grpc_method_ids e)"
      by (simp add: map_of_eq_None_iff)
    with Some None show ?thesis by (simp add: OnNewGrpcCall_def)
  next
    case (Some mid)
    then have "method_name cc \<in> fst ` set (grpc_method_ids e)"
      by (metis map_of_eq_None_iff option.distinct(1))
    with \<open>find_by_func_name (func_config p) (''grpc:'' @ service_name cc) = Some e\<close> Some
    show ?thesis by (simp add: OnNewGrpcCall_def Let_def)
  qed
qed

theorem C9_grpc_not_found_witness:
  "OnNewGrpcCall ex_platform (ex_world True True) (ex_server 2 [ex_http 1 7 ''hi''] [])
       (new_grpc_context ''svc'' ''DoesNotExist'' ''x'')
     = (ex_server 2 [ex_http 1 7 ''hi''] [],
        Some ((new_grpc_context ''svc'' ''DoesNotExist'' ''x'')
                \<lparr>grpc_status := Some NOT_FOUND, grpc_finish_calls := 1\<rparr>))
   \<and> OnNewGrpcCall ex_platform (ex_world True True) (ex_server 2 [ex_http 1 7 ''hi''] [])
       (new_grpc_context ''nosuch'' ''Do'' ''x'')
     = (ex_server 2 [ex_http 1 7 ''hi''] [],
        Some ((new_grpc_context ''nosuch'' ''Do'' ''x'')
                \<lparr>grpc_status := Some NOT_FOUND, grpc_finish_calls := 1\<rparr>))
   \<and> next_call_id (fst (OnNewGrpcCall ex_platform (ex_world True True)
         (ex_server 2 [ex_http 1 7 ''hi''] []) (new_grpc_context ''svc'' ''Do'' ''x''))) = 2"
  using C9_grpc_not_found [of ex_platform "ex_world True True"
      "ex_server 2 [ex_http 1 7 ''hi''] []" "new_grpc_context ''svc'' ''DoesNotExist'' ''x''"]
    C9_grpc_not_found [of ex_platform "ex_world True True"
      "ex_server 2 [ex_http 1 7 ''hi''] []" "new_grpc_context ''nosuch'' ''Do'' ''x''"]
    C9_grpc_not_found [of ex_platform "ex_world True True"
      "ex_server 2 [ex_http 1 7 ''hi''] []" "new_grpc_context ''svc'' ''Do'' ''x''"]
  by (simp add: ex_platform_def ex_config_def new_grpc_context_def ex_server_def Server_new_def)

section \<open>Properties of the gateway: what the drain leaves alone\<close>

text \<open>
  A property that holds before the promotion loop and is kept by each of its rounds
  holds after it; likewise for a loop over a list.
\<close>

lemma promote_pending_rule:
  assumes "P s"
    and "\<And>t c rest. P t \<Longrightarrow> pending_external_func_calls t = c # rest \<Longrightarrow>
           max_running_external_requests t = 0
             \<or> length (running_external_func_calls t) < max_running_external_requests t \<Longrightarrow>
           P (assign_running (full_call_id (call c)) c
               (log_action (PendingPop c) (t\<lparr>pending_external_func_calls := rest\<rparr>)))"
  shows "P (fst (promote_pending s acc))"
  using assms(1)
proof (induction s acc rule: promote_pending.induct)
  case (1 s acc)
  show ?case
  proof (cases "pending_external_func_calls s")
    case Nil
    then show ?thesis using "1.prems" by (simp add: promote_pending.simps)
  next
    case (Cons c rest)
    show ?thesis
    proof (cases "max_running_external_requests s = 0
             \<or> length (running_external_func_calls s) < max_running_external_requests s")
      case True
      have "P (assign_running (full_call_id (call c)) c
                 (log_action (PendingPop c) (s\<lparr>pending_external_func_calls := rest\<rparr>)))"
        using assms(2) [OF "1.prems" Cons True] .
      from "1.IH" [OF Cons True this] show ?thesis
        using Cons True by (subst promote_pending.simps) simp
    next
      case False
      then show ?thesis using Cons "1.prems" by (subst promote_pending.simps) auto
    qed
  qed
qed

lemma fold_rule:
  assumes "P s" and "\<And>t x. P t \<Longrightarrow> P (f x t)"
  shows "P (fold f xs s)"
  using assms(1) by (induction xs arbitrary: s) (simp_all add: assms(2))

lemma dispatch_or_erase_fields [simp]:
  "max_running_external_requests (dispatch_or_erase p w ptr s) = max_running_external_requests s"
  "next_call_id (dispatch_or_erase p w ptr s) = next_call_id s"
  "pending_external_func_calls (dispatch_or_erase p w ptr s) = pending_external_func_calls s"
  "discarded_func_calls (dispatch_or_erase p w ptr s) = discarded_func_calls s"
  by (simp_all add: dispatch_or_erase_def split_beta)

lemma promote_pending_fields [simp]:
  "max_running_external_requests (fst (promote_pending s acc)) = max_running_external_requests s"
  "next_call_id (fst (promote_pending s acc)) = next_call_id s"
  "discarded_func_calls (fst (promote_pending s acc)) = discarded_func_calls s"
  "dispatchers (fst (promote_pending s acc)) = dispatchers s"
  by (rule promote_pending_rule; simp)+

lemma ProcessDiscarded_locked_fields [simp]:
  "max_running_external_requests (fst (ProcessDiscarded_locked s)) = max_running_external_requests s"
  "next_call_id (fst (ProcessDiscarded_locked s)) = next_call_id s"
  "discarded_func_calls (fst (ProcessDiscarded_locked s)) = []"
  "dispatchers (fst (ProcessDiscarded_locked s)) = dispatchers s"
  by (simp_all add: ProcessDiscarded_locked_def split_beta Let_def)

lemma fold_dispatch_fields [simp]:
  "max_running_external_requests (fold (dispatch_or_erase p w) ptrs s) = max_running_external_requests s"
  "next_call_id (fold (dispatch_or_erase p w) ptrs s) = next_call_id s"
  "pending_external_func_calls (fold (dispatch_or_erase p w) ptrs s) = pending_external_func_calls s"
  "discarded_func_calls (fold (dispatch_or_erase p w) ptrs s) = discarded_func_calls s"
  by (rule fold_rule; simp)+

lemma ProcessDiscarded_fields [simp]:
  "max_running_external_requests (ProcessDiscardedFuncCallIfNecessary p w s) = max_running_external_requests s"
  "next_call_id (ProcessDiscardedFuncCallIfNecessary p w s) = next_call_id s"
  "discarded_func_calls (ProcessDiscardedFuncCallIfNecessary p w s) = []"
  by (simp_all add: ProcessDiscardedFuncCallIfNecessary_def split_beta)

lemma fold_DiscardFuncCall:
  "fold DiscardFuncCall fcs s = s\<lparr>discarded_func_calls := discarded_func_calls s @ fcs\<rparr>"
  by (induction fcs arbitrary: s) (simp_all add: DiscardFuncCall_def)

section \<open>Properties of the gateway: where the drain runs\<close>

text \<open>
  Claim C8, as amended. The message handler \<^verbatim>\<open>OnRecvMessage\<close> ends, on every
  branch, with the discarded-call drain, so that at its exit the list of discarded
  calls is empty. The connection-close handler \<^verbatim>\<open>OnConnectionClose\<close> does not run
  the drain: when it returns, the list of discarded calls is the list it found, followed
  (for a message connection whose handshake was done) by the calls that the worker
  manager discarded, and no context has been moved, finished or dropped.
\<close>

theorem C8_drain_at_tail:
  "(\<exists>s'. OnRecvMessage p w s m = ProcessDiscardedFuncCallIfNecessary p w s')
   \<and> discarded_func_calls (OnRecvMessage p w s m) = []
   \<and> (case OnConnectionClose lost s connection of
         None \<Rightarrow> True
       | Some s' \<Rightarrow>
           discarded_func_calls s' =
             discarded_func_calls s
               @ (if connection_type connection = MessageConnection_kTypeId
                     \<and> handshake_done connection then lost else [])
         \<and> running_external_func_calls s' = running_external_func_calls s
         \<and> pending_external_func_calls s' = pending_external_func_calls s
         \<and> destroyed s' = destroyed s
         \<and> trace s' = trace s)"
  by (auto simp: OnRecvMessage_def OnConnectionClose_def fold_DiscardFuncCall Let_def
        split: option.splits if_splits)

theorem C8_drain_at_tail_witness:
  "discarded_func_calls
     (OnRecvMessage ex_platform (ex_world True True)
        ((ex_server 2 [ex_http 1 7 ''hi''] [])\<lparr>discarded_func_calls := [ex_call 1 7]\<rparr>)
        (ex_message INVOKE_FUNC ((ex_call 1 9)\<lparr>client_id := 5\<rparr>) 0 [])) = []
   \<and> OnConnectionClose [ex_call 1 7]
        ((ex_server 2 [ex_http 1 7 ''hi''] [])\<lparr>message_connections := [3]\<rparr>)
        (ex_connection 3 MessageConnection_kTypeId)
      = Some ((ex_server 2 [ex_http 1 7 ''hi''] [])\<lparr>discarded_func_calls := [ex_call 1 7]\<rparr>)"
  using C8_drain_at_tail [where p = ex_platform and w = "ex_world True True"
      and s = "(ex_server 2 [ex_http 1 7 ''hi''] [])\<lparr>discarded_func_calls := [ex_call 1 7]\<rparr>"
      and m = "ex_message INVOKE_FUNC ((ex_call 1 9)\<lparr>client_id := 5\<rparr>) 0 []"]
  by (simp add: OnConnectionClose_def ex_connection_def ex_server_def Server_new_def
        DiscardFuncCall_def Let_def)

text \<open>
  Claim C8 as stated fails for the connection-close handler. A worker's connection
  closes while call 7 is in flight on it, or an HTTP connection closes while call 7 is
  on the list of discarded calls: at the exit of the handler the list still holds call
  7, and the context of call 7 is still in the running table, unfinished.
\<close>

theorem C8_counterexample:
  "OnConnectionClose [ex_call 1 7]
        ((ex_server 2 [ex_http 1 7 ''hi''] [])\<lparr>message_connections := [3]\<rparr>)
        (ex_connection 3 MessageConnection_kTypeId)
      = Some ((ex_server 2 [ex_http 1 7 ''hi''] [])\<lparr>discarded_func_calls := [ex_call 1 7]\<rparr>)
   \<and> OnConnectionClose []
        ((ex_server 2 [ex_http 1 7 ''hi''] [])
           \<lparr>discarded_func_calls := [ex_call 1 7], http_connections := [4]\<rparr>)
        (ex_connection 4 HttpConnection_kTypeId)
      = Some ((ex_server 2 [ex_http 1 7 ''hi''] [])\<lparr>discarded_func_calls := [ex_call 1 7]\<rparr>)
   \<and> discarded_func_calls
        ((ex_server 2 [ex_http 1 7 ''hi''] [])\<lparr>discarded_func_calls := [ex_call 1 7]\<rparr>) \<noteq> []
   \<and> destroyed
        ((ex_server 2 [ex_http 1 7 ''hi''] [])\<lparr>discarded_func_calls := [ex_call 1 7]\<rparr>) = []"
  by (simp add: OnConnectionClose_def ex_connection_def ex_server_def Server_new_def
        DiscardFuncCall_def Let_def)

section \<open>Properties of the gateway: the ingress functions and the events\<close>



section \<open>Properties of the gateway: the cap on running calls\<close>

text \<open>
  Every operation on the running table keeps it within the cap: an entry is added only
  when the table has room, and dispatching changes contexts in place.
\<close>

lemma within_cap_keys:
  "map fst (running_external_func_calls t) = map fst (running_external_func_calls s) \<Longrightarrow>
   max_running_external_requests t = max_running_external_requests s \<Longrightarrow>
   within_cap t = within_cap s"
  by (simp add: within_cap_def) (metis length_map)

lemma length_update_le: "length (AList.update k v al) \<le> Suc (length al)"
  by (induction al) auto

lemma within_cap_assign:
  assumes "within_cap s"
    and "max_running_external_requests s = 0
         \<or> length (running_external_func_calls s) < max_running_external_requests s"
  shows "within_cap (assign_running k c s)"
  using assms length_update_le [of k c "running_external_func_calls s"]
  by (auto simp: within_cap_def AList.distinct_update)

lemma within_cap_delete:
  assumes "within_cap s"
    and "max_running_external_requests t = max_running_external_requests s"
    and "running_external_func_calls t = AList.delete k (running_external_func_calls s)"
  shows "within_cap t"
  using assms AList.length_delete_le [of k "running_external_func_calls s"]
  by (auto simp: within_cap_def AList.distinct_delete)

lemma within_cap_erase: "within_cap s \<Longrightarrow> within_cap (erase_running k s)"
  by (rule within_cap_delete [where k = k]) simp_all

lemma within_cap_Dispatch:
  "within_cap (fst (DispatchExternalFuncCall p w s ptr)) = within_cap s"
  by (rule within_cap_keys) simp_all

lemma within_cap_dispatch_or_erase:
  "within_cap s \<Longrightarrow> within_cap (dispatch_or_erase p w ptr s)"
  by (simp add: dispatch_or_erase_def split_beta within_cap_erase within_cap_Dispatch)

lemma within_cap_frame:
  "running_external_func_calls t = running_external_func_calls s \<Longrightarrow>
   max_running_external_requests t = max_running_external_requests s \<Longrightarrow>
   within_cap t = within_cap s"
  by (simp add: within_cap_def)

lemma within_cap_NewExternalFuncCall:
  "within_cap s \<Longrightarrow> within_cap (NewExternalFuncCall p w s c)"
proof (cases "max_running_external_requests s = 0
         \<or> length (running_external_func_calls s) < max_running_external_requests s")
  case True
  assume "within_cap s"
  then have "within_cap (assign_running (full_call_id (call c)) c s)"
    using True by (rule within_cap_assign)
  then show ?thesis
    using True
    by (simp add: NewExternalFuncCall_def NewExternalFuncCall_locked_def
          within_cap_dispatch_or_erase)
next
  case False
  assume "within_cap s"
  then show ?thesis
    using False
    by (simp add: NewExternalFuncCall_def NewExternalFuncCall_locked_def within_cap_def)
qed

lemma collect_discarded_running:
  "distinct (map fst running) \<Longrightarrow>
   distinct (map fst (fst (collect_discarded fcs running ext internal)))
   \<and> length (fst (collect_discarded fcs running ext internal)) \<le> length running"
proof (induction fcs arbitrary: running ext internal)
  case Nil
  then show ?case by simp
next
  case (Cons fc fcs)
  have "distinct (map fst (AList.delete (full_call_id fc) running))"
    using Cons.prems by (rule AList.distinct_delete)
  from Cons.IH [OF this] Cons.IH [OF Cons.prems]
    AList.length_delete_le [of "full_call_id fc" running]
  show ?case by (auto split: option.splits intro: order_trans)
qed

lemma within_cap_promote:
  assumes "within_cap s"
  shows "within_cap (fst (promote_pending s acc))"
proof (rule promote_pending_rule [where P = within_cap])
  show "within_cap s" by (rule assms)
next
  fix t c rest
  assume t: "within_cap t"
    and g: "max_running_external_requests t = 0
          \<or> length (running_external_func_calls t) < max_running_external_requests t"
  let ?t = "log_action (PendingPop c) (t\<lparr>pending_external_func_calls := rest\<rparr>)"
  have "within_cap ?t" using t by (simp add: within_cap_def)
  moreover have "max_running_external_requests ?t = 0
      \<or> length (running_external_func_calls ?t) < max_running_external_requests ?t"
    using g by simp
  ultimately show "within_cap (assign_running (full_call_id (call c)) c ?t)"
    by (rule within_cap_assign)
qed

lemma within_cap_locked:
  assumes "within_cap s"
  shows "within_cap (fst (ProcessDiscarded_locked s))"
proof -
  let ?r = "fst (collect_discarded (discarded_func_calls s) (running_external_func_calls s) [] [])"
  have "within_cap (s\<lparr>running_external_func_calls := ?r, discarded_func_calls := []\<rparr>)"
    using assms collect_discarded_running
      [of "running_external_func_calls s" "discarded_func_calls s" "[]" "[]"]
    by (auto simp: within_cap_def)
  then show ?thesis
    by (simp add: ProcessDiscarded_locked_def split_beta Let_def within_cap_promote)
qed

lemma within_cap_ProcessDiscarded:
  assumes "within_cap s"
  shows "within_cap (ProcessDiscardedFuncCallIfNecessary p w s)"
proof -
  obtain s1 ext internal ptrs where l: "ProcessDiscarded_locked s = (s1, ext, internal, ptrs)"
    by (cases "ProcessDiscarded_locked s") auto
  have "within_cap s1" using within_cap_locked [OF assms] l by simp
  then have "within_cap (fail_internal internal (finish_discarded ext s1))"
    by (simp add: within_cap_def)
  then have "within_cap (fold (dispatch_or_erase p w) ptrs
                (fail_internal internal (finish_discarded ext s1)))"
    by (rule fold_rule) (rule within_cap_dispatch_or_erase)
  then show ?thesis by (simp add: ProcessDiscardedFuncCallIfNecessary_def l)
qed

lemma OnRecvMessage_invoke_fields [simp]:
  "max_running_external_requests (OnRecvMessage_invoke p s m) = max_running_external_requests s"
  "next_call_id (OnRecvMessage_invoke p s m) = next_call_id s"
  "inflight_external_requests (OnRecvMessage_invoke p s m) = inflight_external_requests s"
  "running_external_func_calls (OnRecvMessage_invoke p s m) = running_external_func_calls s"
  "pending_external_func_calls (OnRecvMessage_invoke p s m) = pending_external_func_calls s"
  "discarded_func_calls (OnRecvMessage_invoke p s m) = discarded_func_calls s"
  "destroyed (OnRecvMessage_invoke p s m) = destroyed s"
  by (simp_all add: OnRecvMessage_invoke_def split_beta Let_def)

lemma within_cap_OnRecvMessage_locked:
  assumes "within_cap s"
  shows "within_cap (fst (OnRecvMessage_locked p s m))"
proof (cases "if client_id (msg_func_call m) = 0
              then map_of (running_external_func_calls s) (full_call_id (msg_func_call m))
              else None")
  case None
  then show ?thesis
    using assms by (simp add: OnRecvMessage_locked_def Let_def split_beta within_cap_def)
next
  case (Some c)
  let ?s' = "s\<lparr>running_external_func_calls :=
                 AList.delete (full_call_id (msg_func_call m)) (running_external_func_calls s)\<rparr>"
  have s': "within_cap ?s'"
    by (rule within_cap_delete [OF assms, where k = "full_call_id (msg_func_call m)"]) simp_all
  show ?thesis
  proof (cases "pending_external_func_calls s")
    case Nil
    then show ?thesis
      using Some s' by (simp add: OnRecvMessage_locked_def Let_def split_beta within_cap_def)
  next
    case (Cons n rest)
    show ?thesis
    proof (cases "max_running_external_requests ?s' = 0
             \<or> length (running_external_func_calls ?s') < max_running_external_requests ?s'")
      case True
      let ?t = "log_action (PendingPop n) (?s'\<lparr>pending_external_func_calls := rest\<rparr>)"
      have "within_cap ?t" using s' by (simp add: within_cap_def)
      moreover have "max_running_external_requests ?t = 0
          \<or> length (running_external_func_calls ?t) < max_running_external_requests ?t"
        using True by simp
      ultimately have "within_cap (assign_running (full_call_id (call n)) n ?t)"
        by (rule within_cap_assign)
      then show ?thesis
        using Some Cons True
        by (simp add: OnRecvMessage_locked_def Let_def split_beta
              within_cap_frame [of "fst (GetOrCreateDispatcherLocked p t f)" t for t f])
    next
      case False
      then show ?thesis
        using Some Cons s'
        by (simp add: OnRecvMessage_locked_def Let_def split_beta within_cap_def)
    qed
  qed
qed

lemma within_cap_OnRecvMessage_completion:
  assumes "within_cap s"
  shows "within_cap (OnRecvMessage_completion p w s m)"
proof -
  obtain s2 ctx ptr d where l: "OnRecvMessage_locked p s m = (s2, ctx, ptr, d)"
    by (cases "OnRecvMessage_locked p s m") auto
  have s2: "within_cap s2" using within_cap_OnRecvMessage_locked [OF assms, of p m] l by simp
  have log: "within_cap (log_action a s2)" for a using s2 by (simp add: within_cap_def)
  have d: "within_cap t \<Longrightarrow> within_cap (destroy c t)" for c t by (simp add: within_cap_def)
  show ?thesis
    using s2 log
    by (simp add: OnRecvMessage_completion_def l Let_def within_cap_dispatch_or_erase d
          split: option.splits)
qed

lemma within_cap_OnRecvMessage:
  assumes "within_cap s"
  shows "within_cap (OnRecvMessage p w s m)"
proof -
  have "within_cap (OnRecvMessage_invoke p s m)" using assms by (simp add: within_cap_def)
  then show ?thesis
    using assms
    by (simp add: OnRecvMessage_def within_cap_ProcessDiscarded
          within_cap_OnRecvMessage_completion)
qed

lemma within_cap_step:
  assumes "within_cap s"
  shows "within_cap (step p s we)"
proof -
  obtain w e where we: "we = (w, e)" by (cases we) auto
  have c: "within_cap (construct s)" using assms by (simp add: within_cap_def)
  have d: "within_cap (DiscardFuncCall fc s)" for fc using assms by (simp add: within_cap_def)
  show ?thesis
    using assms c d
    by (cases e)
       (simp_all add: we within_cap_NewExternalFuncCall within_cap_OnRecvMessage
          within_cap_ProcessDiscarded)
qed

lemma step_max [simp]:
  "max_running_external_requests (step p s we) = max_running_external_requests s"
proof -
  obtain w e where we: "we = (w, e)" by (cases we) auto
  have n: "max_running_external_requests (NewExternalFuncCall p w t c)
             = max_running_external_requests t" for t c
    by (simp add: NewExternalFuncCall_def NewExternalFuncCall_locked_def split_beta)
  have r: "max_running_external_requests (OnRecvMessage p w s m)
             = max_running_external_requests s" for m
    by (simp add: OnRecvMessage_def OnRecvMessage_completion_def OnRecvMessage_locked_def
          split_beta Let_def split: option.splits list.splits)
  show ?thesis by (cases e) (simp_all add: we n r)
qed

lemma run_within_cap:
  "within_cap s \<Longrightarrow>
     within_cap (run p s evs)
     \<and> max_running_external_requests (run p s evs) = max_running_external_requests s"
  by (induction evs arbitrary: s) (simp_all add: run_def within_cap_step)

text \<open>
  Claim C2. Start from a server whose running table is within the cap, such as a new
  server, and let the cap be nonzero. After every sequence of admissions, messages from
  workers, calls of \<^verbatim>\<open>DiscardFuncCall\<close> and drains, whatever the world answers, the
  running table holds at most \<^verbatim>\<open>max_running_external_requests\<close> entries, one per
  key. (The statement is about the state after the whole sequence, and every prefix of a
  sequence is a sequence.)
\<close>

theorem C2_running_within_cap:
  assumes "within_cap s" and "max_running_external_requests s \<noteq> 0"
  shows "length (running_external_func_calls (run p s evs)) \<le> max_running_external_requests s
       \<and> distinct (map fst (running_external_func_calls (run p s evs)))"
  using run_within_cap [OF assms(1), of p evs] assms(2) by (auto simp: within_cap_def)

text \<open>
  With a cap of 1: call 7 is admitted and dispatched, call 8 waits, and when call 7
  completes call 8 takes its place.
\<close>

theorem C2_running_within_cap_witness:
  "run ex_platform (Server_new 1)
     [(ex_world True True, Ev_HttpCall (ex_call 1 7) ''/function/echo'' ''hi''),
      (ex_world True True, Ev_HttpCall (ex_call 1 8) ''/function/echo'' ''ho''),
      (ex_world True True, Ev_RecvMessage (ex_message FUNC_CALL_COMPLETE (ex_call 1 7) 1 ''a''))]
   = (Server_new 1)
       \<lparr>inflight_external_requests := 1,
        running_external_func_calls := [(8, ex_http 1 8 ''ho'')],
        dispatchers := [1],
        destroyed := [spec_finish_output ''a'' (ex_http 1 7 ''hi'')],
        trace := [Dispatcher_NewFuncCall (ex_call 1 7) None 2 ''hi'' False,
                  PendingPush (ex_http 1 8 ''ho''),
                  PendingPop (ex_http 1 8 ''ho''),
                  Dispatcher_FuncCallCompleted (ex_call 1 7) 0 0 1,
                  Dispatcher_NewFuncCall (ex_call 1 8) None 2 ''ho'' False]\<rparr>
   \<and> length (running_external_func_calls (run ex_platform (Server_new 1)
     [(ex_world True True, Ev_HttpCall (ex_call 1 7) ''/function/echo'' ''hi''),
      (ex_world True True, Ev_HttpCall (ex_call 1 8) ''/function/echo'' ''ho''),
      (ex_world True True, Ev_RecvMessage (ex_message FUNC_CALL_COMPLETE (ex_call 1 7) 1 ''a''))]))
     \<le> 1"
proof -
  have r: "run ex_platform (Server_new 1)
     [(ex_world True True, Ev_HttpCall (ex_call 1 7) ''/function/echo'' ''hi''),
      (ex_world True True, Ev_HttpCall (ex_call 1 8) ''/function/echo'' ''ho''),
      (ex_world True True, Ev_RecvMessage (ex_message FUNC_CALL_COMPLETE (ex_call 1 7) 1 ''a''))]
   = (Server_new 1)
       \<lparr>inflight_external_requests := 1,
        running_external_func_calls := [(8, ex_http 1 8 ''ho'')],
        dispatchers := [1],
        destroyed := [spec_finish_output ''a'' (ex_http 1 7 ''hi'')],
        trace := [Dispatcher_NewFuncCall (ex_call 1 7) None 2 ''hi'' False,
                  PendingPush (ex_http 1 8 ''ho''),
                  PendingPop (ex_http 1 8 ''ho''),
                  Dispatcher_FuncCallCompleted (ex_call 1 7) 0 0 1,
                  Dispatcher_NewFuncCall (ex_call 1 8) None 2 ''ho'' False]\<rparr>"
    by (simp add: run_def Server_new_def NewExternalFuncCall_def NewExternalFuncCall_locked_def
          construct_def ex_http_def ex_call_def ExternalFuncCallContext_http_def
          new_http_context_def dispatch_or_erase_def Dispatch_Some GetInput_def
          ex_platform_def ex_config_def ex_world_def with_input_region_def
          assign_running_def erase_running_def store_def log_action_def destroy_def
          GetOrCreateDispatcherLocked_def OnRecvMessage_def OnRecvMessage_completion_def
          OnRecvMessage_locked_def ex_message_def IsInvokeFuncMessage_def
          IsFuncCallCompleteMessage_def finish_external_def FinishWithOutput_spec
          ProcessDiscardedFuncCallIfNecessary_def ProcessDiscarded_locked_def
          promote_pending.simps finish_discarded_def fail_internal_def Let_def)
  have w: "within_cap (Server_new 1)" by (simp add: within_cap_def Server_new_def)
  have m: "max_running_external_requests (Server_new 1) \<noteq> 0" by (simp add: Server_new_def)
  show ?thesis
    using C2_running_within_cap [OF w m, of ex_platform
        "[(ex_world True True, Ev_HttpCall (ex_call 1 7) ''/function/echo'' ''hi''),
          (ex_world True True, Ev_HttpCall (ex_call 1 8) ''/function/echo'' ''ho''),
          (ex_world True True,
           Ev_RecvMessage (ex_message FUNC_CALL_COMPLETE (ex_call 1 7) 1 ''a''))]"] r
    by (simp add: Server_new_def)
qed

section \<open>Properties of the gateway: the pending queue\<close>

text \<open>
  Only the admission of a call that finds no room pushes onto the pending queue, and
  only the two promotions pop from it; nothing else touches the queue or its log.
\<close>

lemma queue_log_basic [simp]:
  "entered_pending (destroy c s) = entered_pending s"
  "left_pending (destroy c s) = left_pending s"
  "entered_pending (assign_running k c s) = entered_pending s"
  "left_pending (assign_running k c s) = left_pending s"
  "entered_pending (erase_running k s) = entered_pending s"
  "left_pending (erase_running k s) = left_pending s"
  "entered_pending (store k c s) = entered_pending s"
  "left_pending (store k c s) = left_pending s"
  "entered_pending (construct s) = entered_pending s"
  "left_pending (construct s) = left_pending s"
  "entered_pending (DiscardFuncCall fc s) = entered_pending s"
  "left_pending (DiscardFuncCall fc s) = left_pending s"
  "entered_pending (fst (GetOrCreateDispatcherLocked p s fid)) = entered_pending s"
  "left_pending (fst (GetOrCreateDispatcherLocked p s fid)) = left_pending s"
  "entered_pending (finish_discarded ext s) = entered_pending s"
  "left_pending (finish_discarded ext s) = left_pending s"
  by (simp_all add: entered_pending_def left_pending_def)

lemma queue_log_log_action [simp]:
  "entered_pending (log_action a s) = entered_pending s @ pushes a"
  "left_pending (log_action a s) = left_pending s @ pops a"
  by (simp_all add: entered_pending_def left_pending_def)

lemma queue_log_fail_internal [simp]:
  "entered_pending (fail_internal internal s) = entered_pending s"
  "left_pending (fail_internal internal s) = left_pending s"
  by (induction internal) (simp_all add: entered_pending_def left_pending_def)

lemma queue_log_Dispatch [simp]:
  "entered_pending (fst (DispatchExternalFuncCall p w s ptr)) = entered_pending s"
  "left_pending (fst (DispatchExternalFuncCall p w s ptr)) = left_pending s"
  by (cases "map_of (running_external_func_calls s) ptr";
      simp add: Dispatch_None Dispatch_Some Let_def)+

lemma queue_log_dispatch_or_erase [simp]:
  "entered_pending (dispatch_or_erase p w ptr s) = entered_pending s"
  "left_pending (dispatch_or_erase p w ptr s) = left_pending s"
  by (simp_all add: dispatch_or_erase_def split_beta)

lemma queue_log_fold_dispatch [simp]:
  "entered_pending (fold (dispatch_or_erase p w) ptrs s) = entered_pending s"
  "left_pending (fold (dispatch_or_erase p w) ptrs s) = left_pending s"
  by (rule fold_rule; simp)+

text \<open>
  What the promotion loop does, in one statement: it takes a prefix of the queue, in
  order, into the running table, and stops when the queue is empty or the table has no
  room.
\<close>

lemma promote_pending_char:
  "\<exists>promoted.
      pending_external_func_calls s = promoted @ pending_external_func_calls (fst (promote_pending s acc))
    \<and> snd (promote_pending s acc) = acc @ map (\<lambda>c. full_call_id (call c)) promoted
    \<and> trace (fst (promote_pending s acc)) = trace s @ map PendingPop promoted
    \<and> running_external_func_calls (fst (promote_pending s acc))
        = fold (\<lambda>c. AList.update (full_call_id (call c)) c) promoted (running_external_func_calls s)
    \<and> (pending_external_func_calls (fst (promote_pending s acc)) = []
        \<or> \<not> has_room (fst (promote_pending s acc)))"
proof (induction s acc rule: promote_pending.induct)
  case (1 s acc)
  show ?case
  proof (cases "pending_external_func_calls s")
    case Nil
    then show ?thesis by (simp add: promote_pending.simps)
  next
    case (Cons c rest)
    show ?thesis
    proof (cases "max_running_external_requests s = 0
             \<or> length (running_external_func_calls s) < max_running_external_requests s")
      case True
      let ?s1 = "assign_running (full_call_id (call c)) c
                    (log_action (PendingPop c) (s\<lparr>pending_external_func_calls := rest\<rparr>))"
      let ?r = "promote_pending ?s1 (acc @ [full_call_id (call c)])"
      have eq: "promote_pending s acc = ?r"
        using Cons True by (subst promote_pending.simps) simp
      from "1.IH" [OF Cons True] obtain promoted where p:
        "pending_external_func_calls ?s1 = promoted @ pending_external_func_calls (fst ?r)"
        "snd ?r = (acc @ [full_call_id (call c)]) @ map (\<lambda>c. full_call_id (call c)) promoted"
        "trace (fst ?r) = trace ?s1 @ map PendingPop promoted"
        "running_external_func_calls (fst ?r)
           = fold (\<lambda>c. AList.update (full_call_id (call c)) c) promoted
               (running_external_func_calls ?s1)"
        "pending_external_func_calls (fst ?r) = [] \<or> \<not> has_room (fst ?r)"
        by blast
      show ?thesis
        unfolding eq
        by (rule exI [where x = "c # promoted"]) (use p Cons in simp)
    next
      case False
      then show ?thesis
        using Cons by (subst (1 2 3 4 5 6) promote_pending.simps) (simp add: has_room_def)
    qed
  qed
qed

lemma queue_log_pops [simp]:
  "concat (map (pops \<circ> PendingPop) cs) = cs"
  "concat (map (pushes \<circ> PendingPop) cs) = []"
  by (induction cs) simp_all

lemma queue_log_update [simp]:
  "entered_pending (s\<lparr>running_external_func_calls := r\<rparr>) = entered_pending s"
  "left_pending (s\<lparr>running_external_func_calls := r\<rparr>) = left_pending s"
  "entered_pending (s\<lparr>pending_external_func_calls := q\<rparr>) = entered_pending s"
  "left_pending (s\<lparr>pending_external_func_calls := q\<rparr>) = left_pending s"
  "entered_pending (s\<lparr>discarded_func_calls := d\<rparr>) = entered_pending s"
  "left_pending (s\<lparr>discarded_func_calls := d\<rparr>) = left_pending s"
  by (simp_all add: entered_pending_def left_pending_def)

lemma ProcessDiscarded_locked_char:
  "\<exists>promoted.
      pending_external_func_calls s
        = promoted @ pending_external_func_calls (fst (ProcessDiscarded_locked s))
    \<and> snd (snd (snd (ProcessDiscarded_locked s))) = map (\<lambda>c. full_call_id (call c)) promoted
    \<and> trace (fst (ProcessDiscarded_locked s)) = trace s @ map PendingPop promoted
    \<and> running_external_func_calls (fst (ProcessDiscarded_locked s))
        = fold (\<lambda>c. AList.update (full_call_id (call c)) c) promoted
            (fst (collect_discarded (discarded_func_calls s) (running_external_func_calls s) [] []))
    \<and> (pending_external_func_calls (fst (ProcessDiscarded_locked s)) = []
        \<or> \<not> has_room (fst (ProcessDiscarded_locked s)))"
proof -
  let ?s1 = "s\<lparr>running_external_func_calls :=
                 fst (collect_discarded (discarded_func_calls s)
                        (running_external_func_calls s) [] []),
               discarded_func_calls := []\<rparr>"
  have l: "fst (ProcessDiscarded_locked s) = fst (promote_pending ?s1 [])"
    "snd (snd (snd (ProcessDiscarded_locked s))) = snd (promote_pending ?s1 [])"
    by (simp_all add: ProcessDiscarded_locked_def split_beta Let_def)
  show ?thesis
    unfolding l using promote_pending_char [of ?s1 "[]"] by simp
qed

lemma fifo_frame:
  "entered_pending t = entered_pending s \<Longrightarrow> left_pending t = left_pending s \<Longrightarrow>
   pending_external_func_calls t = pending_external_func_calls s \<Longrightarrow> fifo t = fifo s"
  by (simp add: fifo_def)

lemma fifo_dispatch_or_erase: "fifo (dispatch_or_erase p w ptr s) = fifo s"
  by (rule fifo_frame) simp_all

lemma fifo_NewExternalFuncCall: "fifo s \<Longrightarrow> fifo (NewExternalFuncCall p w s c)"
  by (simp add: NewExternalFuncCall_def NewExternalFuncCall_locked_def fifo_dispatch_or_erase)
     (simp add: fifo_def)

lemma fifo_ProcessDiscarded_locked:
  assumes "fifo s"
  shows "fifo (fst (ProcessDiscarded_locked s))"
proof -
  from ProcessDiscarded_locked_char [of s] obtain promoted where
    "pending_external_func_calls s
       = promoted @ pending_external_func_calls (fst (ProcessDiscarded_locked s))"
    "trace (fst (ProcessDiscarded_locked s)) = trace s @ map PendingPop promoted"
    by blast
  then show ?thesis
    using assms by (simp add: fifo_def entered_pending_def left_pending_def)
qed

lemma fifo_ProcessDiscarded:
  assumes "fifo s"
  shows "fifo (ProcessDiscardedFuncCallIfNecessary p w s)"
proof -
  have "fifo (fold (dispatch_or_erase p w) ptrs (fail_internal internal (finish_discarded ext t)))
          = fifo t" for ptrs internal ext t
    by (rule fifo_frame) simp_all
  then show ?thesis
    using fifo_ProcessDiscarded_locked [OF assms]
    by (simp add: ProcessDiscardedFuncCallIfNecessary_def split_beta)
qed

lemma OnRecvMessage_locked_promotion:
  "(case OnRecvMessage_locked p s m of
      (s1, ctx, None, d) \<Rightarrow>
        pending_external_func_calls s1 = pending_external_func_calls s
        \<and> left_pending s1 = left_pending s
    | (s1, ctx, Some k, d) \<Rightarrow>
        (case pending_external_func_calls s of
           [] \<Rightarrow> False
         | n # rest \<Rightarrow>
             k = full_call_id (call n)
             \<and> pending_external_func_calls s1 = rest
             \<and> left_pending s1 = left_pending s @ [n]
             \<and> map_of (running_external_func_calls s1) k = Some n))
   \<and> entered_pending (fst (OnRecvMessage_locked p s m)) = entered_pending s"
  by (simp add: OnRecvMessage_locked_def Let_def split_beta AList.update_conv'
        split: option.splits list.splits)

lemma fifo_OnRecvMessage_locked:
  assumes "fifo s"
  shows "fifo (fst (OnRecvMessage_locked p s m))"
  using assms OnRecvMessage_locked_promotion [where p = p and s = s and m = m]
  by (cases "OnRecvMessage_locked p s m")
     (auto simp: fifo_def split: option.splits list.splits)

lemma fifo_OnRecvMessage:
  assumes "fifo s"
  shows "fifo (OnRecvMessage p w s m)"
proof -
  have i: "fifo (OnRecvMessage_invoke p s m)"
    using assms
    by (simp add: OnRecvMessage_invoke_def split_beta Let_def fifo_def)
  obtain s2 ctx ptr d where l: "OnRecvMessage_locked p s m = (s2, ctx, ptr, d)"
    by (cases "OnRecvMessage_locked p s m") auto
  have s2: "fifo s2" using fifo_OnRecvMessage_locked [OF assms, of p m] l by simp
  have log: "fifo (log_action (Dispatcher_FuncCallCompleted a b c e) s2)"
    "fifo (log_action (Dispatcher_FuncCallFailed a b) s2)" for a b c e
    using s2 by (simp_all add: fifo_def)
  have d: "fifo (destroy c t) = fifo t" for c t by (rule fifo_frame) simp_all
  have c: "fifo (OnRecvMessage_completion p w s m)"
    using s2 log
    by (simp add: OnRecvMessage_completion_def l Let_def fifo_dispatch_or_erase d
          split: option.splits)
  show ?thesis
    using assms i c by (simp add: OnRecvMessage_def fifo_ProcessDiscarded)
qed

lemma fifo_step:
  assumes "fifo s"
  shows "fifo (step p s we)"
proof -
  obtain w e where we: "we = (w, e)" by (cases we) auto
  have c: "fifo (construct s)" using assms by (simp add: fifo_def)
  have d: "fifo (DiscardFuncCall fc s)" for fc using assms by (simp add: fifo_def)
  show ?thesis
    using assms c d
    by (cases e)
       (simp_all add: we fifo_NewExternalFuncCall fifo_OnRecvMessage fifo_ProcessDiscarded)
qed

lemma fifo_run: "fifo s \<Longrightarrow> fifo (run p s evs)"
  by (induction evs arbitrary: s) (simp_all add: run_def fifo_step)

text \<open>
  The first loop of the drain removes from the running table exactly the entries of the
  external calls on the list, and collects the internal calls of the list in order.
\<close>

lemma external_ids_simps [simp]:
  "external_ids [] = {}"
  "external_ids (fc # fcs)
     = (if client_id fc = 0 then insert (full_call_id fc) (external_ids fcs)
        else external_ids fcs)"
  by (auto simp: external_ids_def)

lemma delete_as_filter: "AList.delete k r = filter (\<lambda>kc. fst kc \<noteq> k) r"
  by (auto simp: AList.delete_eq intro: filter_cong)

lemma collect_discarded_running_internal:
  "fst (collect_discarded fcs r ext internal) = filter (\<lambda>kc. fst kc \<notin> external_ids fcs) r
   \<and> snd (snd (collect_discarded fcs r ext internal))
       = internal @ filter (\<lambda>fc. client_id fc \<noteq> 0) fcs"
proof (induction fcs arbitrary: r ext internal)
  case Nil
  show ?case by simp
next
  case (Cons fc fcs)
  show ?case
  proof (cases "map_of r (full_call_id fc)")
    case None
    then have "filter (\<lambda>kc. fst kc \<noteq> full_call_id fc) r = r"
      by (auto simp: filter_id_conv map_of_eq_None_iff intro: rev_image_eqI)
    then have "filter (\<lambda>kc. fst kc \<noteq> full_call_id fc \<and> fst kc \<notin> external_ids fcs) r
                 = filter (\<lambda>kc. fst kc \<notin> external_ids fcs) r"
      using filter_filter [of "\<lambda>kc. fst kc \<notin> external_ids fcs"
          "\<lambda>kc. fst kc \<noteq> full_call_id fc" r]
      by simp
    then show ?thesis using None Cons.IH by simp
  next
    case (Some c)
    then show ?thesis using Cons.IH by (simp add: delete_as_filter conj_commute)
  qed
qed

text \<open>
  Every promotion of the second loop finds room: when the \<open>i\<close>-th element of the queue
  is promoted, the table that the first \<open>i\<close> promotions have left passes the admission
  test.
\<close>

lemma has_room_running [simp]:
  "has_room (s\<lparr>running_external_func_calls := r\<rparr>)
     = (max_running_external_requests s = 0 \<or> length r < max_running_external_requests s)"
  by (simp add: has_room_def)

lemma promote_pending_room:
  "list_all (\<lambda>i. has_room (s\<lparr>running_external_func_calls :=
                 fold (\<lambda>c. AList.update (full_call_id (call c)) c)
                   (take i (pending_external_func_calls s)) (running_external_func_calls s)\<rparr>))
     [0..<length (snd (promote_pending s acc)) - length acc]"
proof (induction s acc rule: promote_pending.induct)
  case (1 s acc)
  show ?case
  proof (cases "pending_external_func_calls s")
    case Nil
    then show ?thesis by (simp add: promote_pending.simps)
  next
    case (Cons c rest)
    show ?thesis
    proof (cases "max_running_external_requests s = 0
             \<or> length (running_external_func_calls s) < max_running_external_requests s")
      case True
      let ?k = "full_call_id (call c)"
      let ?s1 = "assign_running ?k c
                    (log_action (PendingPop c) (s\<lparr>pending_external_func_calls := rest\<rparr>))"
      let ?r = "promote_pending ?s1 (acc @ [?k])"
      have eq: "promote_pending s acc = ?r"
        using Cons True by (subst promote_pending.simps) simp
      from promote_pending_char [of ?s1 "acc @ [?k]"] obtain promoted :: "ExternalFuncCallContext list" where
        p: "snd ?r = (acc @ [?k]) @ map (\<lambda>c. full_call_id (call c)) promoted"
        by blast
      have len: "length (snd ?r) - length acc = Suc (length promoted)"
        "length (snd ?r) - length (acc @ [?k]) = length promoted"
        using p by simp_all
      from "1.IH" [OF Cons True]
      have ih: "max_running_external_requests s = 0
                   \<or> length (fold (\<lambda>c. AList.update (full_call_id (call c)) c) (take j rest)
                               (AList.update ?k c (running_external_func_calls s)))
                       < max_running_external_requests s" if "j < length promoted" for j
        unfolding len using that by (auto simp: list_all_iff)
      have "max_running_external_requests s = 0
              \<or> length (fold (\<lambda>c. AList.update (full_call_id (call c)) c) (take i (c # rest))
                          (running_external_func_calls s))
                  < max_running_external_requests s" if "i < Suc (length promoted)" for i
      proof (cases i)
        case 0
        then show ?thesis using True by simp
      next
        case (Suc j)
        then show ?thesis using ih [of j] that by simp
      qed
      then show ?thesis
        unfolding eq len using Cons by (auto simp: list_all_iff)
    next
      case False
      then show ?thesis
        using Cons by (subst promote_pending.simps) simp
    qed
  qed
qed

lemma ProcessDiscarded_locked_room:
  "list_all (\<lambda>i. has_room (s\<lparr>running_external_func_calls :=
                 fold (\<lambda>c. AList.update (full_call_id (call c)) c)
                   (take i (pending_external_func_calls s))
                   (filter (\<lambda>kc. fst kc \<notin> external_ids (discarded_func_calls s))
                      (running_external_func_calls s))\<rparr>))
     [0..<length (snd (snd (snd (ProcessDiscarded_locked s))))]"
proof -
  let ?s1 = "s\<lparr>running_external_func_calls :=
                 fst (collect_discarded (discarded_func_calls s)
                        (running_external_func_calls s) [] []),
               discarded_func_calls := []\<rparr>"
  have l: "snd (snd (snd (ProcessDiscarded_locked s))) = snd (promote_pending ?s1 [])"
    by (simp add: ProcessDiscarded_locked_def split_beta Let_def)
  show ?thesis
    unfolding l using promote_pending_room [of ?s1 "[]"]
    by (simp add: has_room_def collect_discarded_running_internal)
qed

text \<open>
  The promotion of the completion path: when it takes place, and that the handler then
  dispatches the promoted call.
\<close>

lemma OnRecvMessage_locked_promotes:
  "fst (snd (snd (OnRecvMessage_locked p s m)))
     = (if client_id (msg_func_call m) = 0
           \<and> map_of (running_external_func_calls s) (full_call_id (msg_func_call m)) \<noteq> None
           \<and> pending_external_func_calls s \<noteq> []
           \<and> has_room (s\<lparr>running_external_func_calls :=
                            AList.delete (full_call_id (msg_func_call m))
                              (running_external_func_calls s)\<rparr>)
        then Some (full_call_id (call (hd (pending_external_func_calls s))))
        else None)"
  by (simp add: OnRecvMessage_locked_def Let_def split_beta has_room_def
        split: option.splits list.splits)

lemma OnRecvMessage_completion_dispatches:
  "(case OnRecvMessage_locked p s m of
      (s1, ctx, None, d) \<Rightarrow> True
    | (s1, ctx, Some k, d) \<Rightarrow>
        (case ctx of
           None \<Rightarrow> False
         | Some c \<Rightarrow>
             OnRecvMessage_completion p w s m
               = destroy (finish_external w m c)
                   (dispatch_or_erase p w k
                      (if d
                       then log_action
                              (if IsFuncCallCompleteMessage m
                               then Dispatcher_FuncCallCompleted (msg_func_call m)
                                      (processing_time m) (dispatch_delay m)
                                      (nat \<bar>payload_size m\<bar>)
                               else Dispatcher_FuncCallFailed (msg_func_call m)
                                      (dispatch_delay m)) s1
                       else s1))))"
proof -
  obtain s1 ctx kopt d where l: "OnRecvMessage_locked p s m = (s1, ctx, kopt, d)"
    by (cases "OnRecvMessage_locked p s m") auto
  show ?thesis
  proof (cases kopt)
    case None
    then show ?thesis by (simp add: l)
  next
    case (Some k)
    have "client_id (msg_func_call m) = 0 \<and> ctx \<noteq> None"
      using l Some
      by (auto simp: OnRecvMessage_locked_def Let_def split_beta
            split: option.splits list.splits if_splits)
    then show ?thesis
      using Some by (auto simp: l OnRecvMessage_completion_def Let_def)
  qed
qed

lemma fold_update_keeps:
  "map_of r k \<noteq> None \<Longrightarrow>
   map_of (fold (\<lambda>c. AList.update (full_call_id (call c)) c) cs r) k \<noteq> None"
  by (induction cs arbitrary: r) (simp_all add: AList.update_conv')

lemma fold_update_present:
  "list_all (\<lambda>k. map_of (fold (\<lambda>c. AList.update (full_call_id (call c)) c) cs r) k \<noteq> None)
     (map (\<lambda>c. full_call_id (call c)) cs)"
proof (induction cs arbitrary: r)
  case Nil
  show ?case by simp
next
  case (Cons c cs)
  have "map_of (AList.update (full_call_id (call c)) c r) (full_call_id (call c)) \<noteq> None"
    by (simp add: AList.update_conv')
  then have "map_of (fold (\<lambda>c. AList.update (full_call_id (call c)) c) cs
                 (AList.update (full_call_id (call c)) c r)) (full_call_id (call c)) \<noteq> None"
    by (rule fold_update_keeps)
  then show ?case using Cons.IH by simp
qed

text \<open>
  Claim C3. After every sequence of events on a new server, the contexts that entered
  the pending queue are, in order, those that have left it followed by those that still
  wait: contexts leave the queue in the order in which they entered it. An admission
  that finds no room appends the context at the back of the queue.

  The completion path promotes exactly when the message is about an external call that
  has an entry in the running table, the queue is not empty, and the table has room once
  that entry is erased. It then removes the front element \<open>n\<close> of the queue and puts
  it into the running table under its \<^verbatim>\<open>full_call_id\<close>; after the critical section
  the handler tells the dispatcher of the completion, dispatches \<open>n\<close> from the table,
  and only then drops the finished context \<open>done\<close>.

  The drain promotes a prefix of the queue, front first: every promotion finds room in
  the table, the loop goes on until the queue is empty or the table has no room, and
  when the critical section ends the running table is what the first loop left of it
  with the promoted contexts put in, in order, so that every promoted call has an entry.
  The table is the same when the dispatches begin, and the promoted calls are dispatched
  in the order of the queue.
\<close>

theorem C3_pending_fifo:
  "entered_pending (run p (Server_new cap) evs)
     = left_pending (run p (Server_new cap) evs)
         @ pending_external_func_calls (run p (Server_new cap) evs)
   \<and> pending_external_func_calls (fst (NewExternalFuncCall_locked s c))
       = (if has_room s then pending_external_func_calls s
          else pending_external_func_calls s @ [c])
   \<and> entered_pending (fst (NewExternalFuncCall_locked s c))
       = (if has_room s then entered_pending s else entered_pending s @ [c])
   \<and> (case OnRecvMessage_locked p s m of
         (s1, ctx, promoted, d) \<Rightarrow>
           promoted
             = (if client_id (msg_func_call m) = 0
                   \<and> map_of (running_external_func_calls s) (full_call_id (msg_func_call m))
                       \<noteq> None
                   \<and> pending_external_func_calls s \<noteq> []
                   \<and> has_room (s\<lparr>running_external_func_calls :=
                                    AList.delete (full_call_id (msg_func_call m))
                                      (running_external_func_calls s)\<rparr>)
                then Some (full_call_id (call (hd (pending_external_func_calls s))))
                else None)
         \<and> (case promoted of
               None \<Rightarrow>
                 pending_external_func_calls s1 = pending_external_func_calls s
                 \<and> left_pending s1 = left_pending s
             | Some k \<Rightarrow>
                 (case (pending_external_func_calls s, ctx) of
                    (n # rest, Some done) \<Rightarrow>
                      k = full_call_id (call n)
                      \<and> pending_external_func_calls s1 = rest
                      \<and> left_pending s1 = left_pending s @ [n]
                      \<and> map_of (running_external_func_calls s1) k = Some n
                      \<and> OnRecvMessage_completion p w s m
                          = destroy (finish_external w m done)
                              (dispatch_or_erase p w k
                                 (if d
                                  then log_action
                                         (if IsFuncCallCompleteMessage m
                                          then Dispatcher_FuncCallCompleted (msg_func_call m)
                                                 (processing_time m) (dispatch_delay m)
                                                 (nat \<bar>payload_size m\<bar>)
                                          else Dispatcher_FuncCallFailed (msg_func_call m)
                                                 (dispatch_delay m)) s1
                                  else s1))
                  | _ \<Rightarrow> False)))
   \<and> (case ProcessDiscarded_locked s of
         (s1, ext, internal, ks) \<Rightarrow>
           ks = map (\<lambda>c. full_call_id (call c)) (take (length ks) (pending_external_func_calls s))
           \<and> pending_external_func_calls s1 = drop (length ks) (pending_external_func_calls s)
           \<and> left_pending s1 = left_pending s @ take (length ks) (pending_external_func_calls s)
           \<and> list_all (\<lambda>k. map_of (running_external_func_calls s1) k \<noteq> None) ks
           \<and> running_external_func_calls s1
               = fold (\<lambda>c. AList.update (full_call_id (call c)) c)
                   (take (length ks) (pending_external_func_calls s))
                   (filter (\<lambda>kc. fst kc \<notin> external_ids (discarded_func_calls s))
                      (running_external_func_calls s))
           \<and> list_all
                (\<lambda>i. has_room
                       (s\<lparr>running_external_func_calls :=
                            fold (\<lambda>c. AList.update (full_call_id (call c)) c)
                              (take i (pending_external_func_calls s))
                              (filter (\<lambda>kc. fst kc \<notin> external_ids (discarded_func_calls s))
                                 (running_external_func_calls s))\<rparr>))
                [0..<length ks]
           \<and> (pending_external_func_calls s1 = [] \<or> \<not> has_room s1)
           \<and> running_external_func_calls (fail_internal internal (finish_discarded ext s1))
               = running_external_func_calls s1
           \<and> ProcessDiscardedFuncCallIfNecessary p w s
               = fold (dispatch_or_erase p w) ks
                   (fail_internal internal (finish_discarded ext s1)))"
proof -
  have "fifo (Server_new cap)"
    by (simp add: fifo_def Server_new_def entered_pending_def left_pending_def)
  then have "fifo (run p (Server_new cap) evs)" by (rule fifo_run)
  then have a: "entered_pending (run p (Server_new cap) evs)
     = left_pending (run p (Server_new cap) evs)
         @ pending_external_func_calls (run p (Server_new cap) evs)"
    by (simp add: fifo_def)
  have b: "pending_external_func_calls (fst (NewExternalFuncCall_locked s c))
       = (if has_room s then pending_external_func_calls s
          else pending_external_func_calls s @ [c])"
    "entered_pending (fst (NewExternalFuncCall_locked s c))
       = (if has_room s then entered_pending s else entered_pending s @ [c])"
    by (simp_all add: NewExternalFuncCall_locked_def has_room_def)
  obtain s1 ext internal ks where l: "ProcessDiscarded_locked s = (s1, ext, internal, ks)"
    by (cases "ProcessDiscarded_locked s") auto
  from ProcessDiscarded_locked_char [of s] obtain promoted where pr:
    "pending_external_func_calls s = promoted @ pending_external_func_calls s1"
    "ks = map (\<lambda>c. full_call_id (call c)) promoted"
    "trace s1 = trace s @ map PendingPop promoted"
    "running_external_func_calls s1
       = fold (\<lambda>c. AList.update (full_call_id (call c)) c) promoted
           (fst (collect_discarded (discarded_func_calls s) (running_external_func_calls s) [] []))"
    "pending_external_func_calls s1 = [] \<or> \<not> has_room s1"
    unfolding l by auto
  have len: "length ks = length promoted" using pr(2) by simp
  have d1: "ks = map (\<lambda>c. full_call_id (call c)) (take (length ks) (pending_external_func_calls s))"
    and d2: "pending_external_func_calls s1 = drop (length ks) (pending_external_func_calls s)"
    and d3: "left_pending s1 = left_pending s @ take (length ks) (pending_external_func_calls s)"
    and d4: "list_all (\<lambda>k. map_of (running_external_func_calls s1) k \<noteq> None) ks"
    using pr fold_update_present [of promoted
        "fst (collect_discarded (discarded_func_calls s) (running_external_func_calls s) [] [])"]
    by (simp_all add: len left_pending_def)
  have d4b: "running_external_func_calls s1
               = fold (\<lambda>c. AList.update (full_call_id (call c)) c)
                   (take (length ks) (pending_external_func_calls s))
                   (filter (\<lambda>kc. fst kc \<notin> external_ids (discarded_func_calls s))
                      (running_external_func_calls s))"
    using pr(1,4) by (simp add: len collect_discarded_running_internal)
  have d5: "list_all
                (\<lambda>i. has_room
                       (s\<lparr>running_external_func_calls :=
                            fold (\<lambda>c. AList.update (full_call_id (call c)) c)
                              (take i (pending_external_func_calls s))
                              (filter (\<lambda>kc. fst kc \<notin> external_ids (discarded_func_calls s))
                                 (running_external_func_calls s))\<rparr>))
                [0..<length ks]"
    using ProcessDiscarded_locked_room [of s] by (simp add: l)
  note d6 = pr(5)
  have d7: "running_external_func_calls (fail_internal internal (finish_discarded ext s1))
               = running_external_func_calls s1"
    by simp
  have d8: "ProcessDiscardedFuncCallIfNecessary p w s
               = fold (dispatch_or_erase p w) ks
                   (fail_internal internal (finish_discarded ext s1))"
    by (simp add: ProcessDiscardedFuncCallIfNecessary_def l)
  obtain t1 ctx kopt disp where m: "OnRecvMessage_locked p s m = (t1, ctx, kopt, disp)"
    by (cases "OnRecvMessage_locked p s m") auto
  have c1: "kopt
             = (if client_id (msg_func_call m) = 0
                   \<and> map_of (running_external_func_calls s) (full_call_id (msg_func_call m))
                       \<noteq> None
                   \<and> pending_external_func_calls s \<noteq> []
                   \<and> has_room (s\<lparr>running_external_func_calls :=
                                    AList.delete (full_call_id (msg_func_call m))
                                      (running_external_func_calls s)\<rparr>)
                then Some (full_call_id (call (hd (pending_external_func_calls s))))
                else None)"
    using OnRecvMessage_locked_promotes [of p s m] by (simp add: m)
  have c2: "(case kopt of
               None \<Rightarrow>
                 pending_external_func_calls t1 = pending_external_func_calls s
                 \<and> left_pending t1 = left_pending s
             | Some k \<Rightarrow>
                 (case (pending_external_func_calls s, ctx) of
                    (n # rest, Some done) \<Rightarrow>
                      k = full_call_id (call n)
                      \<and> pending_external_func_calls t1 = rest
                      \<and> left_pending t1 = left_pending s @ [n]
                      \<and> map_of (running_external_func_calls t1) k = Some n
                      \<and> OnRecvMessage_completion p w s m
                          = destroy (finish_external w m done)
                              (dispatch_or_erase p w k
                                 (if disp
                                  then log_action
                                         (if IsFuncCallCompleteMessage m
                                          then Dispatcher_FuncCallCompleted (msg_func_call m)
                                                 (processing_time m) (dispatch_delay m)
                                                 (nat \<bar>payload_size m\<bar>)
                                          else Dispatcher_FuncCallFailed (msg_func_call m)
                                                 (dispatch_delay m)) t1
                                  else t1))
                  | _ \<Rightarrow> False))"
    using OnRecvMessage_locked_promotion [where p = p and s = s and m = m]
      OnRecvMessage_completion_dispatches [where p = p and s = s and m = m and w = w]
    by (simp add: m split: option.splits list.splits)
  show ?thesis
    unfolding l m prod.case
    by (intro conjI a b d1 d2 d3 d4 d4b d5 d6 d7 d8 c1 c2 [unfolded prod.case])
qed

text \<open>
  With a cap of 1: call 7 runs, calls 8 and 9 enter the queue in that order, and the
  failure of call 7 promotes call 8, the older of the two. The critical section of the
  completion path promotes call 8 on the failure of call 7, and promotes nothing on a
  message about call 5, which has no entry; the drain, with a cap of 2 and one call
  running, promotes call 8 and leaves calls 9 and 10 in the queue.
\<close>

theorem C3_pending_fifo_witness:
  "entered_pending (run ex_platform (Server_new 1)
     [(ex_world True True, Ev_HttpCall (ex_call 1 7) ''/function/echo'' ''hi''),
      (ex_world True True, Ev_HttpCall (ex_call 1 8) ''/function/echo'' ''ho''),
      (ex_world True True, Ev_GrpcCall (ex_call 2 9) ''svc'' ''Do'' ''hu''),
      (ex_world True True, Ev_RecvMessage (ex_message FUNC_CALL_FAILED (ex_call 1 7) 0 []))])
     = [ex_http 1 8 ''ho'', ex_grpc 2 9 ''hu'']
   \<and> left_pending (run ex_platform (Server_new 1)
     [(ex_world True True, Ev_HttpCall (ex_call 1 7) ''/function/echo'' ''hi''),
      (ex_world True True, Ev_HttpCall (ex_call 1 8) ''/function/echo'' ''ho''),
      (ex_world True True, Ev_GrpcCall (ex_call 2 9) ''svc'' ''Do'' ''hu''),
      (ex_world True True, Ev_RecvMessage (ex_message FUNC_CALL_FAILED (ex_call 1 7) 0 []))])
     = [ex_http 1 8 ''ho'']
   \<and> pending_external_func_calls (run ex_platform (Server_new 1)
     [(ex_world True True, Ev_HttpCall (ex_call 1 7) ''/function/echo'' ''hi''),
      (ex_world True True, Ev_HttpCall (ex_call 1 8) ''/function/echo'' ''ho''),
      (ex_world True True, Ev_GrpcCall (ex_call 2 9) ''svc'' ''Do'' ''hu''),
      (ex_world True True, Ev_RecvMessage (ex_message FUNC_CALL_FAILED (ex_call 1 7) 0 []))])
     = [ex_grpc 2 9 ''hu'']
   \<and> fst (snd (snd (OnRecvMessage_locked ex_platform
        (ex_server 1 [ex_http 1 7 ''hi''] [ex_http 1 8 ''ho'', ex_grpc 2 9 ''hu''])
        (ex_message FUNC_CALL_FAILED (ex_call 1 7) 0 [])))) = Some 8
   \<and> fst (snd (snd (OnRecvMessage_locked ex_platform
        (ex_server 2 [ex_http 1 7 ''hi''] [ex_http 1 8 ''ho''])
        (ex_message FUNC_CALL_FAILED (ex_call 1 5) 0 [])))) = None
   \<and> snd (snd (snd (ProcessDiscarded_locked
        (ex_server 2 [ex_http 1 7 ''hi'']
           [ex_http 1 8 ''ho'', ex_grpc 2 9 ''hu'', ex_http 1 10 ''he''])))) = [8]"
proof -
  let ?evs = "[(ex_world True True, Ev_HttpCall (ex_call 1 7) ''/function/echo'' ''hi''),
      (ex_world True True, Ev_HttpCall (ex_call 1 8) ''/function/echo'' ''ho''),
      (ex_world True True, Ev_GrpcCall (ex_call 2 9) ''svc'' ''Do'' ''hu''),
      (ex_world True True, Ev_RecvMessage (ex_message FUNC_CALL_FAILED (ex_call 1 7) 0 []))]"
  have r: "trace (run ex_platform (Server_new 1) ?evs)
      = [Dispatcher_NewFuncCall (ex_call 1 7) None 2 ''hi'' False,
         PendingPush (ex_http 1 8 ''ho''),
         PendingPush (ex_grpc 2 9 ''hu''),
         PendingPop (ex_http 1 8 ''ho''),
         Dispatcher_FuncCallFailed (ex_call 1 7) 0,
         Dispatcher_NewFuncCall (ex_call 1 8) None 2 ''ho'' False]"
    by (simp add: run_def Server_new_def NewExternalFuncCall_def NewExternalFuncCall_locked_def
          construct_def ex_http_def ex_grpc_def ex_call_def ExternalFuncCallContext_http_def
          ExternalFuncCallContext_grpc_def new_grpc_context_def
          new_http_context_def dispatch_or_erase_def Dispatch_Some GetInput_def
          ex_platform_def ex_config_def ex_world_def with_input_region_def
          assign_running_def erase_running_def store_def log_action_def destroy_def
          GetOrCreateDispatcherLocked_def OnRecvMessage_def OnRecvMessage_completion_def
          OnRecvMessage_locked_def ex_message_def IsInvokeFuncMessage_def
          IsFuncCallCompleteMessage_def IsFuncCallFailedMessage_def finish_external_def
          ProcessDiscardedFuncCallIfNecessary_def ProcessDiscarded_locked_def
          promote_pending.simps finish_discarded_def fail_internal_def Let_def)
  note f = C3_pending_fifo [where p = ex_platform and cap = 1 and evs = ?evs, THEN conjunct1]
  have e: "entered_pending (run ex_platform (Server_new 1) ?evs)
             = [ex_http 1 8 ''ho'', ex_grpc 2 9 ''hu'']"
    unfolding entered_pending_def r by simp
  have l: "left_pending (run ex_platform (Server_new 1) ?evs) = [ex_http 1 8 ''ho'']"
    unfolding left_pending_def r by simp
  from f e l have q: "pending_external_func_calls (run ex_platform (Server_new 1) ?evs)
     = [ex_grpc 2 9 ''hu'']" by simp
  let ?s = "ex_server 1 [ex_http 1 7 ''hi''] [ex_http 1 8 ''ho'', ex_grpc 2 9 ''hu'']"
  let ?m = "ex_message FUNC_CALL_FAILED (ex_call 1 7) 0 []"
  from C3_pending_fifo [where p = ex_platform and s = ?s and m = ?m]
  have "case OnRecvMessage_locked ex_platform ?s ?m of
          (s1, ctx, promoted, d) \<Rightarrow>
            promoted
              = (if client_id (msg_func_call ?m) = 0
                    \<and> map_of (running_external_func_calls ?s) (full_call_id (msg_func_call ?m))
                        \<noteq> None
                    \<and> pending_external_func_calls ?s \<noteq> []
                    \<and> has_room (?s\<lparr>running_external_func_calls :=
                                     AList.delete (full_call_id (msg_func_call ?m))
                                       (running_external_func_calls ?s)\<rparr>)
                 then Some (full_call_id (call (hd (pending_external_func_calls ?s))))
                 else None)"
    by (simp add: split_beta)
  then have k: "fst (snd (snd (OnRecvMessage_locked ex_platform ?s ?m))) = Some 8"
    by (simp add: split_beta ex_server_def Server_new_def ex_message_def ex_call_def
          ex_http_def ex_grpc_def ExternalFuncCallContext_http_def
          ExternalFuncCallContext_grpc_def has_room_def)
  let ?s' = "ex_server 2 [ex_http 1 7 ''hi''] [ex_http 1 8 ''ho'']"
  let ?m' = "ex_message FUNC_CALL_FAILED (ex_call 1 5) 0 []"
  from C3_pending_fifo [where p = ex_platform and s = ?s' and m = ?m']
  have "case OnRecvMessage_locked ex_platform ?s' ?m' of
          (s1, ctx, promoted, d) \<Rightarrow>
            promoted
              = (if client_id (msg_func_call ?m') = 0
                    \<and> map_of (running_external_func_calls ?s') (full_call_id (msg_func_call ?m'))
                        \<noteq> None
                    \<and> pending_external_func_calls ?s' \<noteq> []
                    \<and> has_room (?s'\<lparr>running_external_func_calls :=
                                     AList.delete (full_call_id (msg_func_call ?m'))
                                       (running_external_func_calls ?s')\<rparr>)
                 then Some (full_call_id (call (hd (pending_external_func_calls ?s'))))
                 else None)"
    by (simp add: split_beta)
  then have k': "fst (snd (snd (OnRecvMessage_locked ex_platform ?s' ?m'))) = None"
    by (simp add: split_beta ex_server_def Server_new_def ex_message_def ex_call_def
          ex_http_def ex_grpc_def ExternalFuncCallContext_http_def
          ExternalFuncCallContext_grpc_def has_room_def)
  have d: "snd (snd (snd (ProcessDiscarded_locked
        (ex_server 2 [ex_http 1 7 ''hi'']
           [ex_http 1 8 ''ho'', ex_grpc 2 9 ''hu'', ex_http 1 10 ''he''])))) = [8]"
    by (simp add: ProcessDiscarded_locked_def ex_server_def Server_new_def ex_http_def
          ex_grpc_def ex_call_def ExternalFuncCallContext_http_def
          ExternalFuncCallContext_grpc_def promote_pending.simps assign_running_def
          log_action_def Let_def)
  from e l q k k' d show ?thesis by (intro conjI)
qed

section \<open>Properties of the gateway: the discarded-call drain\<close>

text \<open>
  The first loop of the drain collects the contexts of the external calls on the list
  that have an entry in the running table.
\<close>

lemma collect_discarded_external:
  "set (fst (snd (collect_discarded fcs r ext internal)))
     = set ext \<union> {c. \<exists>fc \<in> set fcs. client_id fc = 0 \<and> map_of r (full_call_id fc) = Some c}"
proof (induction fcs arbitrary: r ext internal)
  case Nil
  show ?case by simp
next
  case (Cons fc fcs)
  let ?A = "\<lambda>r fcs. {c. \<exists>fc \<in> set fcs. client_id fc = 0 \<and> map_of r (full_call_id fc) = Some c}"
  show ?case
  proof (cases "client_id fc = 0")
    case False
    have "?A r (fc # fcs) = ?A r fcs" using False by auto
    then show ?thesis using False Cons.IH [of r ext "internal @ [fc]"] by simp
  next
    case True
    show ?thesis
    proof (cases "map_of r (full_call_id fc)")
      case None
      have "?A r (fc # fcs) = ?A r fcs" using None by auto
      then show ?thesis using True None Cons.IH [of r ext internal] by simp
    next
      case (Some c)
      let ?r = "AList.delete (full_call_id fc) r"
      have m: "map_of ?r k = (if k = full_call_id fc then None else map_of r k)" for k
        by (simp add: AList.delete_conv')
      have "?A r (fc # fcs) = insert c (?A ?r fcs)"
      proof (rule set_eqI)
        fix x
        show "x \<in> ?A r (fc # fcs) \<longleftrightarrow> x \<in> insert c (?A ?r fcs)"
        proof
          assume "x \<in> ?A r (fc # fcs)"
          then obtain g where g: "g \<in> set (fc # fcs)" "client_id g = 0"
            "map_of r (full_call_id g) = Some x" by auto
          show "x \<in> insert c (?A ?r fcs)"
          proof (cases "full_call_id g = full_call_id fc")
            case True
            then have "x = c" using g(3) Some by simp
            then show ?thesis by simp
          next
            case False
            then have "g \<in> set fcs" "map_of ?r (full_call_id g) = Some x"
              using g by (auto simp: m)
            then show ?thesis using g(2) by auto
          qed
        next
          assume "x \<in> insert c (?A ?r fcs)"
          then show "x \<in> ?A r (fc # fcs)"
            using True Some by (auto simp: m split: if_splits)
        qed
      qed
      then show ?thesis
        using True Some Cons.IH [of ?r "ext @ [c]" internal] by simp
    qed
  qed
qed

lemma prefix_trace_Dispatch: "prefix (trace s) (trace (fst (DispatchExternalFuncCall p w s ptr)))"
  by (cases "map_of (running_external_func_calls s) ptr")
     (simp_all add: Dispatch_None Dispatch_Some Let_def)

lemma prefix_trace_dispatch_or_erase: "prefix (trace s) (trace (dispatch_or_erase p w ptr s))"
  by (simp add: dispatch_or_erase_def split_beta prefix_trace_Dispatch)

lemma prefix_trace_fold_dispatch:
  "prefix (trace s) (trace (fold (dispatch_or_erase p w) ptrs s))"
proof (induction ptrs arbitrary: s)
  case Nil
  show ?case by simp
next
  case (Cons ptr ptrs)
  have "prefix (trace s) (trace (dispatch_or_erase p w ptr s))"
    by (rule prefix_trace_dispatch_or_erase)
  also have "prefix \<dots> (trace (fold (dispatch_or_erase p w) ptrs (dispatch_or_erase p w ptr s)))"
    by (rule Cons.IH)
  finally show ?case by simp
qed

lemma dispatch_or_erase_entry:
  "(map_of (running_external_func_calls (dispatch_or_erase p w k t)) k = None)
     = (\<not> snd (DispatchExternalFuncCall p w t k))"
  using Dispatch_success [of p w t k]
  by (simp add: dispatch_or_erase_def split_beta AList.delete_conv')

text \<open>
  How many calls the second loop promotes when no identifier is repeated among the
  running table and the queue: then every promotion adds an entry.
\<close>

lemma fold_update_fresh:
  "distinct (map fst r @ map context_id cs) \<Longrightarrow>
   fold (\<lambda>c. AList.update (full_call_id (call c)) c) cs r = r @ map (\<lambda>c. (context_id c, c)) cs"
proof (induction cs arbitrary: r)
  case Nil
  show ?case by simp
next
  case (Cons c cs)
  have a: "context_id c \<notin> fst ` set r" using Cons.prems by auto
  have u: "AList.update (full_call_id (call c)) c r = r @ [(context_id c, c)]"
    using update_absent [OF a] by (simp add: context_id_def)
  have "distinct (map fst (r @ [(context_id c, c)]) @ map context_id cs)"
    using Cons.prems by auto
  from Cons.IH [OF this] show ?case by (simp add: u)
qed

lemma distinct_append_take: "distinct (xs @ ys) \<Longrightarrow> distinct (xs @ take j ys)"
  by (auto dest: in_set_takeD)

lemma promoted_count:
  fixes n cap len0 L :: nat
  assumes "n \<le> L" and "\<forall>i<n. cap = 0 \<or> len0 + i < cap"
    and "n = L \<or> \<not> (cap = 0 \<or> len0 + n < cap)"
  shows "n = (if cap = 0 then L else min L (cap - len0))"
proof (cases "cap = 0")
  case True
  then show ?thesis using assms by simp
next
  case False
  have "n \<le> cap - len0"
  proof (cases n)
    case 0
    then show ?thesis by simp
  next
    case (Suc m)
    then have "len0 + m < cap" using assms(2) False by auto
    then show ?thesis using Suc by simp
  qed
  then show ?thesis using assms(1,3) False by auto
qed

text \<open>
  Claim C7. When the drain runs, its critical section empties the list of discarded
  calls; moves out of the running table the context of every external call on the list
  that has an entry there (\<open>ext\<close>), leaving the other entries as they were; records
  the internal calls of the list (\<open>internal\<close>); and promotes a prefix of the pending
  queue into the running table while the cap permits (\<open>ks\<close> are the promoted calls):
  every promotion finds room in the table as the promotions before it have left it, and
  the loop ends only when the queue is empty or the table has no room. So, when no
  identifier is repeated among the table and the queue, the number of promoted calls is
  the length of the queue if the cap is 0, and otherwise the smaller of the length of
  the queue and the room that the first loop has left in the table.

  Outside the critical section it finishes each context of \<open>ext\<close> with the
  dispatch-failure response and drops it, then reports each call of \<open>internal\<close> to
  \<^verbatim>\<open>worker_lib::FuncCallFinished\<close> with \<^verbatim>\<open>success = false\<close>, then attempts to
  dispatch each promoted call in turn; an attempt leaves the call's entry in the running
  table exactly when the dispatch succeeds, and erases it otherwise.
\<close>

theorem C7_drain:
  "(case ProcessDiscarded_locked s of
      (s1, ext, internal, ks) \<Rightarrow>
        discarded_func_calls s1 = []
      \<and> set ext = {c. \<exists>fc \<in> set (discarded_func_calls s).
                        client_id fc = 0
                        \<and> map_of (running_external_func_calls s) (full_call_id fc) = Some c}
      \<and> internal = filter (\<lambda>fc. client_id fc \<noteq> 0) (discarded_func_calls s)
      \<and> ks = map (\<lambda>c. full_call_id (call c)) (take (length ks) (pending_external_func_calls s))
      \<and> pending_external_func_calls s1 = drop (length ks) (pending_external_func_calls s)
      \<and> running_external_func_calls s1
          = fold (\<lambda>c. AList.update (full_call_id (call c)) c)
              (take (length ks) (pending_external_func_calls s))
              (filter (\<lambda>kc. fst kc \<notin> external_ids (discarded_func_calls s))
                 (running_external_func_calls s))
      \<and> list_all
           (\<lambda>i. has_room
                  (s\<lparr>running_external_func_calls :=
                       fold (\<lambda>c. AList.update (full_call_id (call c)) c)
                         (take i (pending_external_func_calls s))
                         (filter (\<lambda>kc. fst kc \<notin> external_ids (discarded_func_calls s))
                            (running_external_func_calls s))\<rparr>))
           [0..<length ks]
      \<and> (pending_external_func_calls s1 = [] \<or> \<not> has_room s1)
      \<and> (distinct (map fst (filter (\<lambda>kc. fst kc \<notin> external_ids (discarded_func_calls s))
                               (running_external_func_calls s))
                    @ map context_id (pending_external_func_calls s))
           \<longrightarrow> length ks
                 = (if max_running_external_requests s = 0
                    then length (pending_external_func_calls s)
                    else min (length (pending_external_func_calls s))
                           (max_running_external_requests s
                              - length (filter (\<lambda>kc. fst kc \<notin> external_ids (discarded_func_calls s))
                                          (running_external_func_calls s)))))
      \<and> ProcessDiscardedFuncCallIfNecessary p w s
          = fold (dispatch_or_erase p w) ks (fail_internal internal (finish_discarded ext s1))
      \<and> prefix (destroyed s1 @ map spec_finish_dispatch_failure ext)
           (destroyed (ProcessDiscardedFuncCallIfNecessary p w s))
      \<and> prefix (trace s1 @ map (\<lambda>fc. WorkerLib_FuncCallFinished fc False [] 0) internal)
           (trace (ProcessDiscardedFuncCallIfNecessary p w s)))
   \<and> dispatch_or_erase p w k t
       = (if snd (DispatchExternalFuncCall p w t k) then fst (DispatchExternalFuncCall p w t k)
          else erase_running k (fst (DispatchExternalFuncCall p w t k)))
   \<and> (map_of (running_external_func_calls (dispatch_or_erase p w k t)) k = None)
       = (\<not> snd (DispatchExternalFuncCall p w t k))"
proof -
  obtain s1 ext internal ks where l: "ProcessDiscarded_locked s = (s1, ext, internal, ks)"
    by (cases "ProcessDiscarded_locked s") auto
  let ?c = "collect_discarded (discarded_func_calls s) (running_external_func_calls s) [] []"
  let ?r0 = "filter (\<lambda>kc. fst kc \<notin> external_ids (discarded_func_calls s))
               (running_external_func_calls s)"
  let ?q = "pending_external_func_calls s"
  let ?cap = "max_running_external_requests s"
  let ?upd = "\<lambda>c. AList.update (full_call_id (call c)) c"
  have ext: "ext = fst (snd ?c)" and internal: "internal = snd (snd ?c)"
    using l by (simp_all add: ProcessDiscarded_locked_def split_beta Let_def)
  from ProcessDiscarded_locked_char [of s] obtain promoted where pr:
    "pending_external_func_calls s = promoted @ pending_external_func_calls s1"
    "ks = map (\<lambda>c. full_call_id (call c)) promoted"
    "running_external_func_calls s1
       = fold (\<lambda>c. AList.update (full_call_id (call c)) c) promoted (fst ?c)"
    "pending_external_func_calls s1 = [] \<or> \<not> has_room s1"
    unfolding l by auto
  have len: "length ks = length promoted" using pr(2) by simp
  have tk: "take (length ks) (pending_external_func_calls s) = promoted"
    "drop (length ks) (pending_external_func_calls s) = pending_external_func_calls s1"
    using pr(1) by (simp_all add: len)
  have d: "discarded_func_calls s1 = []"
    using ProcessDiscarded_locked_fields(3) [of s] l by simp
  have e: "set ext = {c. \<exists>fc \<in> set (discarded_func_calls s).
                        client_id fc = 0
                        \<and> map_of (running_external_func_calls s) (full_call_id fc) = Some c}"
    unfolding ext by (simp add: collect_discarded_external)
  have i: "internal = filter (\<lambda>fc. client_id fc \<noteq> 0) (discarded_func_calls s)"
    unfolding internal by (simp add: collect_discarded_running_internal)
  have r: "running_external_func_calls s1 = fold ?upd (take (length ks) ?q) ?r0"
    using pr(3) by (simp add: tk collect_discarded_running_internal)
  have room: "list_all
           (\<lambda>i. has_room (s\<lparr>running_external_func_calls := fold ?upd (take i ?q) ?r0\<rparr>))
           [0..<length ks]"
    using ProcessDiscarded_locked_room [of s] by (simp add: l)
  have cap1: "max_running_external_requests s1 = ?cap"
    using ProcessDiscarded_locked_fields(1) [of s] l by simp
  have count: "length ks = (if ?cap = 0 then length ?q else min (length ?q) (?cap - length ?r0))"
    if dist: "distinct (map fst ?r0 @ map context_id ?q)"
  proof -
    have le: "length ks \<le> length ?q" using pr(1) len by simp
    have fresh: "length (fold ?upd (take j ?q) ?r0) = length ?r0 + j" if "j \<le> length ?q" for j
    proof -
      have "distinct (map fst ?r0 @ take j (map context_id ?q))"
        using dist by (rule distinct_append_take)
      then have "distinct (map fst ?r0 @ map context_id (take j ?q))"
        by (simp add: take_map)
      from fold_update_fresh [OF this] that show ?thesis by simp
    qed
    have a: "\<forall>j<length ks. ?cap = 0 \<or> length ?r0 + j < ?cap"
      using room le fresh by (auto simp: list_all_iff)
    have b: "length ks = length ?q \<or> \<not> (?cap = 0 \<or> length ?r0 + length ks < ?cap)"
      using pr(4) tk(2) le fresh [of "length ks"] r by (auto simp: has_room_def cap1)
    from promoted_count [OF le a b] show ?thesis .
  qed
  have f: "ProcessDiscardedFuncCallIfNecessary p w s
          = fold (dispatch_or_erase p w) ks (fail_internal internal (finish_discarded ext s1))"
    by (simp add: ProcessDiscardedFuncCallIfNecessary_def l)
  have pd: "prefix (destroyed s1 @ map spec_finish_dispatch_failure ext)
           (destroyed (ProcessDiscardedFuncCallIfNecessary p w s))"
    unfolding f
    using prefix_destroyed_fold_dispatch
      [of "fail_internal internal (finish_discarded ext s1)" p w ks]
    by (simp add: FinishWithDispatchFailure_spec [abs_def])
  have pt: "prefix (trace s1 @ map (\<lambda>fc. WorkerLib_FuncCallFinished fc False [] 0) internal)
           (trace (ProcessDiscardedFuncCallIfNecessary p w s))"
    unfolding f
    using prefix_trace_fold_dispatch
      [of "fail_internal internal (finish_discarded ext s1)" p w ks]
    by simp
  have u: "dispatch_or_erase p w k t
       = (if snd (DispatchExternalFuncCall p w t k) then fst (DispatchExternalFuncCall p w t k)
          else erase_running k (fst (DispatchExternalFuncCall p w t k)))"
    by (simp add: dispatch_or_erase_def split_beta)
  have k1: "ks = map (\<lambda>c. full_call_id (call c))
                    (take (length ks) (pending_external_func_calls s))"
    using pr(2) tk(1) by simp
  have k2: "pending_external_func_calls s1 = drop (length ks) (pending_external_func_calls s)"
    using tk(2) by simp
  note stop = pr(4)
  note entry = dispatch_or_erase_entry [of p w k t]
  from count have count':
    "distinct (map fst ?r0 @ map context_id ?q)
       \<longrightarrow> length ks = (if ?cap = 0 then length ?q else min (length ?q) (?cap - length ?r0))"
    by blast
  show ?thesis
    unfolding l prod.case by (intro conjI; fact)
qed

text \<open>
  With a cap of 2, calls 7 and 8 running, calls 9 and 10 waiting, and a list that names
  call 7 twice and an internal call of worker 5: call 7 is answered with the dispatch
  failure, the internal call is failed, and call 9 is promoted and dispatched, while
  call 10 stays in the queue: no identifier is repeated, and one call is promoted, the
  room that call 8 leaves under the cap.
\<close>

theorem C7_drain_witness:
  "ProcessDiscardedFuncCallIfNecessary ex_platform (ex_world True True)
     ((ex_server 2 [ex_http 1 7 ''hi'', ex_grpc 2 8 ''ho''] [ex_http 1 9 ''hu'', ex_http 1 10 ''he''])
        \<lparr>discarded_func_calls := [ex_call 1 7, (ex_call 1 20)\<lparr>client_id := 5\<rparr>, ex_call 1 7]\<rparr>)
   = (ex_server 2 [ex_grpc 2 8 ''ho'', ex_http 1 9 ''hu''] [ex_http 1 10 ''he''])
       \<lparr>dispatchers := [1],
        destroyed := [spec_finish_dispatch_failure (ex_http 1 7 ''hi'')],
        trace := [PendingPop (ex_http 1 9 ''hu''),
                  WorkerLib_FuncCallFinished ((ex_call 1 20)\<lparr>client_id := 5\<rparr>) False [] 0,
                  Dispatcher_NewFuncCall (ex_call 1 9) None 2 ''hu'' False]\<rparr>
   \<and> distinct (map fst (filter (\<lambda>kc. fst kc \<notin> external_ids
                                      [ex_call 1 7, (ex_call 1 20)\<lparr>client_id := 5\<rparr>, ex_call 1 7])
                          [(7, ex_http 1 7 ''hi''), (8, ex_grpc 2 8 ''ho'')])
               @ map context_id [ex_http 1 9 ''hu'', ex_http 1 10 ''he''])
   \<and> length (snd (snd (snd (ProcessDiscarded_locked
        ((ex_server 2 [ex_http 1 7 ''hi'', ex_grpc 2 8 ''ho''] [ex_http 1 9 ''hu'', ex_http 1 10 ''he''])
           \<lparr>discarded_func_calls := [ex_call 1 7, (ex_call 1 20)\<lparr>client_id := 5\<rparr>, ex_call 1 7]\<rparr>)))))
       = min 2 (2 - 1)"
proof -
  let ?s = "(ex_server 2 [ex_http 1 7 ''hi'', ex_grpc 2 8 ''ho'']
               [ex_http 1 9 ''hu'', ex_http 1 10 ''he''])
        \<lparr>discarded_func_calls := [ex_call 1 7, (ex_call 1 20)\<lparr>client_id := 5\<rparr>, ex_call 1 7]\<rparr>"
  have l: "ProcessDiscarded_locked ?s
     = ((ex_server 2 [ex_grpc 2 8 ''ho'', ex_http 1 9 ''hu''] [ex_http 1 10 ''he''])
          \<lparr>inflight_external_requests := 4, trace := [PendingPop (ex_http 1 9 ''hu'')]\<rparr>,
        [ex_http 1 7 ''hi''], [(ex_call 1 20)\<lparr>client_id := 5\<rparr>], [9])"
    by (simp add: ProcessDiscarded_locked_def ex_server_def Server_new_def ex_http_def
          ex_grpc_def ex_call_def ExternalFuncCallContext_http_def
          ExternalFuncCallContext_grpc_def promote_pending.simps assign_running_def
          log_action_def Let_def)
  have d: "distinct (map fst (filter (\<lambda>kc. fst kc \<notin> external_ids
                                      [ex_call 1 7, (ex_call 1 20)\<lparr>client_id := 5\<rparr>, ex_call 1 7])
                          [(7, ex_http 1 7 ''hi''), (8, ex_grpc 2 8 ''ho'')])
               @ map context_id [ex_http 1 9 ''hu'', ex_http 1 10 ''he''])"
    by (simp add: ex_call_def ex_http_def ex_grpc_def context_id_def
          ExternalFuncCallContext_http_def ExternalFuncCallContext_grpc_def)
  note t = C7_drain [where s = ?s and p = ex_platform and w = "ex_world True True",
      unfolded l prod.case]
  from t
  have f: "ProcessDiscardedFuncCallIfNecessary ex_platform (ex_world True True) ?s
          = fold (dispatch_or_erase ex_platform (ex_world True True)) [9]
              (fail_internal [(ex_call 1 20)\<lparr>client_id := 5\<rparr>]
                 (finish_discarded [ex_http 1 7 ''hi'']
                    ((ex_server 2 [ex_grpc 2 8 ''ho'', ex_http 1 9 ''hu''] [ex_http 1 10 ''he''])
          \<lparr>inflight_external_requests := 4, trace := [PendingPop (ex_http 1 9 ''hu'')]\<rparr>)))"
    by blast
  have r: "ProcessDiscardedFuncCallIfNecessary ex_platform (ex_world True True) ?s
   = (ex_server 2 [ex_grpc 2 8 ''ho'', ex_http 1 9 ''hu''] [ex_http 1 10 ''he''])
       \<lparr>dispatchers := [1],
        destroyed := [spec_finish_dispatch_failure (ex_http 1 7 ''hi'')],
        trace := [PendingPop (ex_http 1 9 ''hu''),
                  WorkerLib_FuncCallFinished ((ex_call 1 20)\<lparr>client_id := 5\<rparr>) False [] 0,
                  Dispatcher_NewFuncCall (ex_call 1 9) None 2 ''hu'' False]\<rparr>"
    unfolding f
    by (simp add: finish_discarded_def fail_internal_def dispatch_or_erase_def Dispatch_Some
          ex_server_def Server_new_def ex_http_def ex_grpc_def ex_call_def
          ExternalFuncCallContext_http_def ExternalFuncCallContext_grpc_def
          new_http_context_def GetInput_def ex_platform_def ex_config_def ex_world_def
          with_input_region_def store_def log_action_def destroy_def
          GetOrCreateDispatcherLocked_def FinishWithDispatchFailure_spec Let_def)
  from t have "distinct (map fst (filter (\<lambda>kc. fst kc \<notin> external_ids (discarded_func_calls ?s))
                               (running_external_func_calls ?s))
                    @ map context_id (pending_external_func_calls ?s))
           \<longrightarrow> length [9::64 word]
                 = (if max_running_external_requests ?s = 0
                    then length (pending_external_func_calls ?s)
                    else min (length (pending_external_func_calls ?s))
                           (max_running_external_requests ?s
                              - length (filter (\<lambda>kc. fst kc \<notin> external_ids (discarded_func_calls ?s))
                                          (running_external_func_calls ?s))))"
    by blast
  then have c: "length (snd (snd (snd (ProcessDiscarded_locked ?s)))) = min 2 (2 - 1)"
    unfolding l
    by (simp add: ex_server_def Server_new_def ex_call_def ex_http_def ex_grpc_def context_id_def
          ExternalFuncCallContext_http_def ExternalFuncCallContext_grpc_def)
  from r d c show ?thesis by (intro conjI)
qed

section \<open>Properties of the gateway: the life of a context\<close>









lemma context_id_finish [simp]:
  "context_id (spec_finish_error c) = context_id c"
  "context_id (spec_finish_dispatch_failure c) = context_id c"
  "context_id (spec_finish_output d c) = context_id c"
  "context_id (with_input_region p c) = context_id c"
  "context_id (spec_completion w m c) = context_id c"
  by (simp_all add: context_id_def spec_finish_error_def spec_finish_dispatch_failure_def
        spec_finish_output_def with_input_region_def spec_completion_def split: option.splits)

lemma finish_calls_with_input_region [simp]:
  "finish_calls (with_input_region p c) = finish_calls c"
  by (simp add: finish_calls_def with_input_region_def)













lemma finish_external_once [simp]:
  "finish_calls (finish_external w m c) = Suc (finish_calls c)"
  "context_id (finish_external w m c) = context_id c"
  by (simp_all add: finish_external_def FinishWithShmOutput_spec FinishWithOutput_spec
        FinishWithError_spec context_id_def [of "c\<lparr>output_region := x\<rparr>" for x]
        context_id_def [of c] finish_calls_def [of "c\<lparr>output_region := x\<rparr>" for x]
        finish_calls_def [of c] split: option.splits)



lemma new_context_fresh [simp]:
  "finish_calls (ExternalFuncCallContext_http fc (new_http_context path body)) = 0"
  "finish_calls (ExternalFuncCallContext_grpc fc (new_grpc_context service meth body)) = 0"
  "context_id (ExternalFuncCallContext_http fc h) = full_call_id fc"
  "context_id (ExternalFuncCallContext_grpc fc g) = full_call_id fc"
  by (simp_all add: finish_calls_def context_id_def ExternalFuncCallContext_http_def
        ExternalFuncCallContext_grpc_def new_http_context_def new_grpc_context_def)


text \<open>
  The counter of call ids belongs to the ingress functions: no handler of the core
  changes it.
\<close>

lemma OnRecvMessage_next_call_id [simp]:
  "next_call_id (OnRecvMessage p w s m) = next_call_id s"
  by (simp add: OnRecvMessage_def OnRecvMessage_completion_def OnRecvMessage_locked_def
        split_beta Let_def split: option.splits list.splits)

lemma step_next_call_id [simp]: "next_call_id (step p s we) = next_call_id s"
proof -
  obtain w e where we: "we = (w, e)" by (cases we) auto
  show ?thesis by (cases e) (simp_all add: we)
qed





















end
